theory Spec2Isabelle
  imports Main
begin

section \<open>Python values, exceptions and strings\<close>

text \<open>
  A shallow embedding of \<^verbatim>\<open>summarizer/model/model_loader.py\<close>.

  A Python \<^verbatim>\<open>str\<close> is a \<^typ>\<open>string\<close>: the list of its code points, each below 256
  (the range of \<^typ>\<open>char\<close>).  The values that flow through the module (the result of
  \<^verbatim>\<open>json.load\<close>, the dictionary built from the environment, \<^verbatim>\<open>None\<close>) are values
  of the type \<open>json\<close>; \<^verbatim>\<open>None\<close> is \<open>JNull\<close>.  A dictionary is an association
  list with pairwise distinct keys, in insertion order.  A float is kept as the
  decimal literal that denotes it.
\<close>

datatype json =
    JNull
  | JBool bool
  | JInt int
  | JFloat string
  | JStr string
  | JArr "json list"
  | JObj "(string \<times> json) list"

text \<open>
  Every exception the module can propagate is a value.  \<open>CollaboratorError\<close> is an
  exception raised by the remote workspace or by the artifact loader.
  \<open>UnmodelledText\<close> marks a JSON text with an escape \<^verbatim>\<open>\uXXXX\<close> above 255, whose
  value is outside \<^typ>\<open>string\<close>; \<open>OutOfFuel\<close> is the exhausted recursion bound of
  the parser, which \<open>json_loads\<close> never reaches (lemma \<open>json_loads_fuel\<close>).
\<close>

datatype error =
    JSONDecodeError
  | FileNotFoundError
  | NotADirectoryError
  | IsADirectoryError
  | FileExistsError
  | KeyError string
  | AttributeError
  | TypeError
  | CollaboratorError string
  | UnmodelledText
  | OutOfFuel

subsection \<open>\<^verbatim>\<open>json.dump\<close>\<close>

text \<open>
  \<^verbatim>\<open>json.dump(cfg, json_file)\<close> with the default arguments: \<^verbatim>\<open>ensure_ascii=True\<close>,
  item separator \<^verbatim>\<open>", "\<close>, key separator \<^verbatim>\<open>": "\<close>.  The encoder leaves the
  printable ASCII characters other than the quote and the backslash as they are and
  writes every other code point as a short escape or as \<^verbatim>\<open>\u00xx\<close>, lower case.
\<close>

definition hexdigit :: "nat \<Rightarrow> char" where
  "hexdigit n = ''0123456789abcdef'' ! (n mod 16)"

definition escape_char :: "char \<Rightarrow> string" where
  "escape_char c =
     (if c = CHR 0x5C then [CHR 0x5C, CHR 0x5C]
      else if c = CHR 0x22 then [CHR 0x5C, CHR 0x22]
      else if c = CHR 0x08 then [CHR 0x5C, CHR ''b'']
      else if c = CHR 0x0C then [CHR 0x5C, CHR ''f'']
      else if c = CHR 0x0A then [CHR 0x5C, CHR ''n'']
      else if c = CHR 0x0D then [CHR 0x5C, CHR ''r'']
      else if c = CHR 0x09 then [CHR 0x5C, CHR ''t'']
      else if 0x20 \<le> (of_char c :: nat) \<and> (of_char c :: nat) \<le> 0x7E then [c]
      else [CHR 0x5C, CHR ''u'', CHR ''0'', CHR ''0'',
            hexdigit ((of_char c :: nat) div 16), hexdigit (of_char c :: nat)])"

definition py_encode_basestring_ascii :: "string \<Rightarrow> string" where
  "py_encode_basestring_ascii s = CHR 0x22 # concat (map escape_char s) @ [CHR 0x22]"

definition digit_char :: "nat \<Rightarrow> char" where
  "digit_char n = char_of (48 + n mod 10)"

fun show_nat :: "nat \<Rightarrow> string" where
  "show_nat n = (if n < 10 then [digit_char n] else show_nat (n div 10) @ [digit_char n])"

declare show_nat.simps [simp del]

definition show_int :: "int \<Rightarrow> string" where
  "show_int i = (if i < 0 then CHR ''-'' # show_nat (nat (- i)) else show_nat (nat i))"

fun join_with :: "string \<Rightarrow> string list \<Rightarrow> string" where
  "join_with sep [] = []"
| "join_with sep [x] = x"
| "join_with sep (x # y # ys) = x @ sep @ join_with sep (y # ys)"

fun json_dumps :: "json \<Rightarrow> string"
  and dumps_items :: "json list \<Rightarrow> string list"
  and dumps_members :: "(string \<times> json) list \<Rightarrow> string list" where
  "json_dumps JNull = ''null''"
| "json_dumps (JBool b) = (if b then ''true'' else ''false'')"
| "json_dumps (JInt i) = show_int i"
| "json_dumps (JFloat lexeme) = lexeme"
| "json_dumps (JStr s) = py_encode_basestring_ascii s"
| "json_dumps (JArr xs) = ''['' @ join_with '', '' (dumps_items xs) @ '']''"
| "json_dumps (JObj kvs) = ''{'' @ join_with '', '' (dumps_members kvs) @ ''}''"
| "dumps_items [] = []"
| "dumps_items (x # xs) = json_dumps x # dumps_items xs"
| "dumps_members [] = []"
| "dumps_members ((k, v) # kvs) =
     (py_encode_basestring_ascii k @ '': '' @ json_dumps v) # dumps_members kvs"

subsection \<open>\<^verbatim>\<open>json.load\<close>\<close>

text \<open>
  The decoder of the standard library: optional white space, one value, optional white
  space, end of text.  The value scanner tries, in this order, a string, an object, an
  array, \<^verbatim>\<open>null\<close>, \<^verbatim>\<open>true\<close>, \<^verbatim>\<open>false\<close>, a number, \<^verbatim>\<open>NaN\<close>,
  \<^verbatim>\<open>Infinity\<close> and \<^verbatim>\<open>-Infinity\<close>.  A repeated key keeps its first position and
  its last value, as \<^verbatim>\<open>dict(pairs)\<close> does.
\<close>

definition is_ws :: "char \<Rightarrow> bool" where
  "is_ws c \<longleftrightarrow> c = CHR 0x20 \<or> c = CHR 0x09 \<or> c = CHR 0x0A \<or> c = CHR 0x0D"

definition skip_ws :: "string \<Rightarrow> string" where
  "skip_ws = dropWhile is_ws"

definition is_digit :: "char \<Rightarrow> bool" where
  "is_digit c \<longleftrightarrow> 48 \<le> (of_char c :: nat) \<and> (of_char c :: nat) \<le> 57"

definition hexval :: "char \<Rightarrow> nat option" where
  "hexval c =
     (let n = (of_char c :: nat) in
      if 48 \<le> n \<and> n \<le> 57 then Some (n - 48)
      else if 97 \<le> n \<and> n \<le> 102 then Some (n - 87)
      else if 65 \<le> n \<and> n \<le> 70 then Some (n - 55)
      else None)"

definition hex4 :: "char \<Rightarrow> char \<Rightarrow> char \<Rightarrow> char \<Rightarrow> nat option" where
  "hex4 a b c d =
     (case (hexval a, hexval b, hexval c, hexval d) of
        (Some w, Some x, Some y, Some z) \<Rightarrow> Some (((w * 16 + x) * 16 + y) * 16 + z)
      | _ \<Rightarrow> None)"

definition unescape :: "char \<Rightarrow> char option" where
  "unescape e =
     (if e = CHR 0x22 then Some (CHR 0x22)
      else if e = CHR 0x5C then Some (CHR 0x5C)
      else if e = CHR ''/'' then Some (CHR ''/'')
      else if e = CHR ''b'' then Some (CHR 0x08)
      else if e = CHR ''f'' then Some (CHR 0x0C)
      else if e = CHR ''n'' then Some (CHR 0x0A)
      else if e = CHR ''r'' then Some (CHR 0x0D)
      else if e = CHR ''t'' then Some (CHR 0x09)
      else None)"

definition cons_result ::
  "char \<Rightarrow> error + (string \<times> string) \<Rightarrow> error + (string \<times> string)" where
  "cons_result c r = (case r of Inl e \<Rightarrow> Inl e | Inr (s, rest) \<Rightarrow> Inr (c # s, rest))"

text \<open>The scanner of a string, started behind the opening quote.\<close>

fun scanstring :: "string \<Rightarrow> error + (string \<times> string)" where
  "scanstring [] = Inl JSONDecodeError"
| "scanstring (c # cs) =
     (if c = CHR 0x22 then Inr ([], cs)
      else if c = CHR 0x5C then
        (case cs of
           [] \<Rightarrow> Inl JSONDecodeError
         | e # r \<Rightarrow>
             if e = CHR ''u'' then
               (case r of
                  h1 # h2 # h3 # h4 # r' \<Rightarrow>
                    (case hex4 h1 h2 h3 h4 of
                       None \<Rightarrow> Inl JSONDecodeError
                     | Some n \<Rightarrow>
                         if n < 256 then cons_result (char_of n) (scanstring r')
                         else Inl UnmodelledText)
                | _ \<Rightarrow> Inl JSONDecodeError)
             else
               (case unescape e of
                  None \<Rightarrow> Inl JSONDecodeError
                | Some ch \<Rightarrow> cons_result ch (scanstring r)))
      else if (of_char c :: nat) < 32 then Inl JSONDecodeError
      else cons_result c (scanstring cs))"

definition starts_with :: "string \<Rightarrow> string \<Rightarrow> bool" where
  "starts_with s p \<longleftrightarrow> take (length p) s = p"

definition dec_value :: "string \<Rightarrow> nat" where
  "dec_value ds = foldl (\<lambda>a c. 10 * a + ((of_char c :: nat) - 48)) 0 ds"

text \<open>
  The number pattern \<^verbatim>\<open>(-?(?:0|[1-9]\d*))(\.\d+)?([eE][-+]?\d+)?\<close>: an integer when
  neither the fraction nor the exponent is there, a float otherwise.
\<close>

definition match_number :: "string \<Rightarrow> (json \<times> string) option" where
  "match_number cs =
     (let (sgn, r0) = (case cs of [] \<Rightarrow> ([], cs)
                       | c # r \<Rightarrow> if c = CHR ''-'' then ([c], r) else ([], cs))
      in case r0 of
           [] \<Rightarrow> None
         | d # r1 \<Rightarrow>
             if \<not> is_digit d then None
             else
               let (ip, r2) = (if d = CHR ''0'' then ([d], r1)
                               else (d # takeWhile is_digit r1, dropWhile is_digit r1));
                   (fp, r3) = (case r2 of [] \<Rightarrow> ([], r2)
                               | p # f \<Rightarrow>
                                   if p = CHR ''.'' \<and> takeWhile is_digit f \<noteq> []
                                   then (p # takeWhile is_digit f, dropWhile is_digit f)
                                   else ([], r2));
                   (ep, r4) = (case r3 of [] \<Rightarrow> ([], r3)
                               | e # x \<Rightarrow>
                                   if e = CHR ''e'' \<or> e = CHR ''E'' then
                                     (let (sg, y) = (case x of [] \<Rightarrow> ([], x)
                                                     | s # y' \<Rightarrow>
                                                         if s = CHR ''+'' \<or> s = CHR ''-''
                                                         then ([s], y') else ([], x))
                                      in if takeWhile is_digit y \<noteq> []
                                         then (e # sg @ takeWhile is_digit y, dropWhile is_digit y)
                                         else ([], r3))
                                   else ([], r3))
               in if fp = [] \<and> ep = []
                  then Some (JInt (if sgn = [] then int (dec_value ip) else - int (dec_value ip)), r4)
                  else Some (JFloat (sgn @ ip @ fp @ ep), r4))"

fun dict_set :: "(string \<times> json) list \<Rightarrow> string \<Rightarrow> json \<Rightarrow> (string \<times> json) list" where
  "dict_set [] k v = [(k, v)]"
| "dict_set ((k', v') # kvs) k v =
     (if k' = k then (k, v) # kvs else (k', v') # dict_set kvs k v)"

text \<open>
  The three scanners call each other; the first argument bounds the number of calls.
  \<open>scan_array\<close> starts at the first character of an element, \<open>scan_object\<close> behind the
  opening quote of a key.
\<close>

fun scan_once :: "nat \<Rightarrow> string \<Rightarrow> error + (json \<times> string)"
  and scan_array :: "nat \<Rightarrow> json list \<Rightarrow> string \<Rightarrow> error + (json \<times> string)"
  and scan_object :: "nat \<Rightarrow> (string \<times> json) list \<Rightarrow> string \<Rightarrow> error + (json \<times> string)"
  where
  "scan_once 0 cs = Inl OutOfFuel"
| "scan_once (Suc n) cs =
     (case cs of
        [] \<Rightarrow> Inl JSONDecodeError
      | c # r \<Rightarrow>
          if c = CHR 0x22 then
            (case scanstring r of
               Inl e \<Rightarrow> Inl e
             | Inr (s, r') \<Rightarrow> Inr (JStr s, r'))
          else if c = CHR ''{'' then
            (case skip_ws r of
               [] \<Rightarrow> Inl JSONDecodeError
             | x # r' \<Rightarrow>
                 if x = CHR ''}'' then Inr (JObj [], r')
                 else if x = CHR 0x22 then scan_object n [] r'
                 else Inl JSONDecodeError)
          else if c = CHR ''['' then
            (case skip_ws r of
               [] \<Rightarrow> Inl JSONDecodeError
             | x # r' \<Rightarrow>
                 if x = CHR '']'' then Inr (JArr [], r')
                 else scan_array n [] (x # r'))
          else if starts_with cs ''null'' then Inr (JNull, drop 4 cs)
          else if starts_with cs ''true'' then Inr (JBool True, drop 4 cs)
          else if starts_with cs ''false'' then Inr (JBool False, drop 5 cs)
          else
            (case match_number cs of
               Some res \<Rightarrow> Inr res
             | None \<Rightarrow>
                 if starts_with cs ''NaN'' then Inr (JFloat ''NaN'', drop 3 cs)
                 else if starts_with cs ''Infinity'' then Inr (JFloat ''Infinity'', drop 8 cs)
                 else if starts_with cs ''-Infinity'' then Inr (JFloat ''-Infinity'', drop 9 cs)
                 else Inl JSONDecodeError))"
| "scan_array 0 acc cs = Inl OutOfFuel"
| "scan_array (Suc n) acc cs =
     (case scan_once n cs of
        Inl e \<Rightarrow> Inl e
      | Inr (v, r) \<Rightarrow>
          (case skip_ws r of
             [] \<Rightarrow> Inl JSONDecodeError
           | x # r' \<Rightarrow>
               if x = CHR '']'' then Inr (JArr (acc @ [v]), r')
               else if x = CHR '','' then scan_array n (acc @ [v]) (skip_ws r')
               else Inl JSONDecodeError))"
| "scan_object 0 acc cs = Inl OutOfFuel"
| "scan_object (Suc n) acc cs =
     (case scanstring cs of
        Inl e \<Rightarrow> Inl e
      | Inr (k, r) \<Rightarrow>
          (case skip_ws r of
             [] \<Rightarrow> Inl JSONDecodeError
           | c # r1 \<Rightarrow>
               if c \<noteq> CHR '':'' then Inl JSONDecodeError
               else
                 (case scan_once n (skip_ws r1) of
                    Inl e \<Rightarrow> Inl e
                  | Inr (v, r2) \<Rightarrow>
                      (case skip_ws r2 of
                         [] \<Rightarrow> Inl JSONDecodeError
                       | x # r3 \<Rightarrow>
                           if x = CHR ''}'' then Inr (JObj (dict_set acc k v), r3)
                           else if x = CHR '','' then
                             (case skip_ws r3 of
                                [] \<Rightarrow> Inl JSONDecodeError
                              | q # r4 \<Rightarrow>
                                  if q = CHR 0x22 then scan_object n (dict_set acc k v) r4
                                  else Inl JSONDecodeError)
                           else Inl JSONDecodeError))))"

definition json_loads :: "string \<Rightarrow> error + json" where
  "json_loads txt =
     (case scan_once (Suc (2 * length txt)) (skip_ws txt) of
        Inl e \<Rightarrow> Inl e
      | Inr (v, r) \<Rightarrow> if skip_ws r = [] then Inr v else Inl JSONDecodeError)"

section \<open>Paths and the local filesystem\<close>

text \<open>
  \<^verbatim>\<open>os.path.join\<close> of \<^verbatim>\<open>posixpath\<close>: a component that starts with a slash
  replaces what came before it; otherwise it is appended, behind a slash unless the
  path so far is empty or ends with one.
\<close>

definition join2 :: "string \<Rightarrow> string \<Rightarrow> string" where
  "join2 p b =
     (if b \<noteq> [] \<and> hd b = CHR ''/'' then b
      else if p = [] \<or> last p = CHR ''/'' then p @ b
      else p @ ''/'' @ b)"

definition path_join :: "string \<Rightarrow> string list \<Rightarrow> string" where
  "path_join a ps = foldl join2 a ps"

text \<open>
  The filesystem is a tree without symbolic links: a map from the list of names that
  leads from the root to a node, and the working directory of the process.  A path
  is resolved as the kernel does it, component by component; every component,
  also an empty one and a dot, needs a directory to start from.
\<close>

datatype node = Dir | File string

record filesystem =
  cwd :: "string list"
  nodes :: "string list \<rightharpoonup> node"

fun split_slash :: "string \<Rightarrow> string list" where
  "split_slash [] = [[]]"
| "split_slash (c # cs) =
     (if c = CHR ''/'' then [] # split_slash cs
      else (case split_slash cs of
              [] \<Rightarrow> [[c]]
            | x # xs \<Rightarrow> (c # x) # xs))"

fun walk :: "(string list \<rightharpoonup> node) \<Rightarrow> string list \<Rightarrow> string list \<Rightarrow> error + string list" where
  "walk t cur [] = Inr cur"
| "walk t cur (c # cs) =
     (case t cur of
        None \<Rightarrow> Inl FileNotFoundError
      | Some (File txt) \<Rightarrow> Inl NotADirectoryError
      | Some Dir \<Rightarrow>
          if c = [] \<or> c = ''.'' then walk t cur cs
          else if c = ''..'' then walk t (butlast cur) cs
          else walk t (cur @ [c]) cs)"

definition is_absolute :: "string \<Rightarrow> bool" where
  "is_absolute p \<longleftrightarrow> p \<noteq> [] \<and> hd p = CHR ''/''"

definition start_dir :: "filesystem \<Rightarrow> bool \<Rightarrow> string list" where
  "start_dir fs ab = (if ab then [] else cwd fs)"

definition node_at :: "filesystem \<Rightarrow> bool \<Rightarrow> string list \<Rightarrow> error + node" where
  "node_at fs ab comps =
     (case walk (nodes fs) (start_dir fs ab) comps of
        Inl e \<Rightarrow> Inl e
      | Inr k \<Rightarrow> (case nodes fs k of None \<Rightarrow> Inl FileNotFoundError | Some n \<Rightarrow> Inr n))"

definition os_stat :: "filesystem \<Rightarrow> string \<Rightarrow> error + node" where
  "os_stat fs p =
     (if p = [] then Inl FileNotFoundError
      else node_at fs (is_absolute p) (split_slash p))"

text \<open>\<^verbatim>\<open>os.path.exists\<close>: whether \<^verbatim>\<open>os.stat\<close> succeeds.\<close>

definition path_exists :: "filesystem \<Rightarrow> string \<Rightarrow> bool" where
  "path_exists fs p = (case os_stat fs p of Inl e \<Rightarrow> False | Inr n \<Rightarrow> True)"

text \<open>\<^verbatim>\<open>open(p, 'r')\<close> followed by reading the whole file.\<close>

definition open_read :: "filesystem \<Rightarrow> string \<Rightarrow> error + string" where
  "open_read fs p =
     (case os_stat fs p of
        Inl e \<Rightarrow> Inl e
      | Inr Dir \<Rightarrow> Inl IsADirectoryError
      | Inr (File txt) \<Rightarrow> Inr txt)"

text \<open>
  Creating an entry: the path up to its last component must lead to a directory, and
  the last component names the entry in it.
\<close>

definition parent_of :: "filesystem \<Rightarrow> bool \<Rightarrow> string list \<Rightarrow> error + string list" where
  "parent_of fs ab comps =
     (case walk (nodes fs) (start_dir fs ab) (butlast comps) of
        Inl e \<Rightarrow> Inl e
      | Inr k \<Rightarrow>
          (case nodes fs k of
             None \<Rightarrow> Inl FileNotFoundError
           | Some (File txt) \<Rightarrow> Inl NotADirectoryError
           | Some Dir \<Rightarrow> Inr k))"

definition is_special :: "string \<Rightarrow> bool" where
  "is_special c \<longleftrightarrow> c = [] \<or> c = ''.'' \<or> c = ''..''"

text \<open>\<^verbatim>\<open>open(p, 'w')\<close>, writing \<open>txt\<close> and closing the file.\<close>

definition open_write :: "filesystem \<Rightarrow> string \<Rightarrow> string \<Rightarrow> error + filesystem" where
  "open_write fs p txt =
     (if p = [] then Inl FileNotFoundError
      else if is_special (last (split_slash p)) then
        (case os_stat fs p of Inl e \<Rightarrow> Inl e | Inr n \<Rightarrow> Inl IsADirectoryError)
      else
        (case parent_of fs (is_absolute p) (split_slash p) of
           Inl e \<Rightarrow> Inl e
         | Inr k \<Rightarrow>
             (case nodes fs (k @ [last (split_slash p)]) of
                Some Dir \<Rightarrow> Inl IsADirectoryError
              | _ \<Rightarrow> Inr (fs\<lparr>nodes := (nodes fs)(k @ [last (split_slash p)] \<mapsto> File txt)\<rparr>))))"

text \<open>
  \<^verbatim>\<open>pathlib.Path(p)\<close> keeps whether the path is absolute and its parts: the components
  other than the empty one and the dot.  \<^verbatim>\<open>os.mkdir\<close> of such a path:
\<close>

definition path_parts :: "string \<Rightarrow> string list" where
  "path_parts p = filter (\<lambda>c. c \<noteq> [] \<and> c \<noteq> ''.'') (split_slash p)"

definition os_mkdir :: "filesystem \<Rightarrow> bool \<Rightarrow> string list \<Rightarrow> error + filesystem" where
  "os_mkdir fs ab parts =
     (if parts = [] then
        (case nodes fs (start_dir fs ab) of
           None \<Rightarrow> Inl FileNotFoundError
         | Some n \<Rightarrow> Inl FileExistsError)
      else
        (case parent_of fs ab parts of
           Inl e \<Rightarrow> Inl e
         | Inr k \<Rightarrow>
             if last parts = ''..'' then Inl FileExistsError
             else
               (case nodes fs (k @ [last parts]) of
                  Some n \<Rightarrow> Inl FileExistsError
                | None \<Rightarrow> Inr (fs\<lparr>nodes := (nodes fs)(k @ [last parts] \<mapsto> Dir)\<rparr>))))"

definition is_dir :: "filesystem \<Rightarrow> bool \<Rightarrow> string list \<Rightarrow> bool" where
  "is_dir fs ab parts = (node_at fs ab parts = Inr Dir)"

text \<open>
  \<^verbatim>\<open>Path.mkdir(parents=True, exist_ok=...)\<close>: try \<^verbatim>\<open>os.mkdir\<close>; on
  \<^verbatim>\<open>FileNotFoundError\<close> make the parent (with \<^verbatim>\<open>exist_ok=True\<close>) and try once
  more; any other error is ignored when \<^verbatim>\<open>exist_ok\<close> holds and the path is a
  directory.  The filesystem is returned also when the call raises, with the
  parents made so far.
\<close>

function path_mkdir ::
  "filesystem \<Rightarrow> bool \<Rightarrow> string list \<Rightarrow> bool \<Rightarrow> error option \<times> filesystem" where
  "path_mkdir fs ab parts exist_ok =
     (case os_mkdir fs ab parts of
        Inr fs' \<Rightarrow> (None, fs')
      | Inl e \<Rightarrow>
          if e = FileNotFoundError then
            (if parts = [] then (Some e, fs)
             else
               (case path_mkdir fs ab (butlast parts) True of
                  (Some e', fs1) \<Rightarrow> (Some e', fs1)
                | (None, fs1) \<Rightarrow>
                    (case os_mkdir fs1 ab parts of
                       Inr fs2 \<Rightarrow> (None, fs2)
                     | Inl e2 \<Rightarrow>
                         if e2 \<noteq> FileNotFoundError \<and> exist_ok \<and> is_dir fs1 ab parts
                         then (None, fs1) else (Some e2, fs1))))
          else if exist_ok \<and> is_dir fs ab parts then (None, fs)
          else (Some e, fs))"
  by pat_completeness auto
termination
  by (relation "measure (\<lambda>(fs, ab, parts, exist_ok). length parts)") auto

declare path_mkdir.simps [simp del]

section \<open>The collaborators and the state of a run\<close>

text \<open>
  The environment of the process is a map from names to values; the module only reads
  it.  The remote workspace and the artifact loader are parameters (a \<open>world\<close>): each of
  their operations returns a value or raises.  A download also changes the local files,
  whether it succeeds or not.
\<close>

datatype auth = ServicePrincipalAuthentication
  (tenant_id: "string option")
  (service_principal_id: "string option")
  (service_principal_password: "string option")

datatype workspace = Workspace (ws_name: string)

datatype aml_model = Model (m_name: string) (m_version: int)

record ('m, 't) world =
  Workspace_get :: "json \<Rightarrow> json \<Rightarrow> json \<Rightarrow> auth \<Rightarrow> error + workspace"
  Model_init :: "workspace \<Rightarrow> json \<Rightarrow> json \<Rightarrow> error + aml_model"
  Model_download :: "aml_model \<Rightarrow> string \<Rightarrow> bool \<Rightarrow> filesystem \<Rightarrow> (error + string) \<times> filesystem"
  Model_list :: "workspace \<Rightarrow> error + aml_model list"
  cuda_is_available :: bool
  LED_from_pretrained :: "filesystem \<Rightarrow> string \<Rightarrow> error + 'm"
  Module_to :: "'m \<Rightarrow> string \<Rightarrow> 'm"
  Tokenizer_from_pretrained :: "filesystem \<Rightarrow> string \<Rightarrow> error + 't"

text \<open>
  A run of the module is observed through the local files and through the list of the
  calls it made, in order: the two calls that write to the local filesystem, the calls
  to the remote workspace, and the calls to the artifact loader.  A call is recorded
  when it is made, whether it returns or raises.
\<close>

datatype call =
    Mkdir string
  | OpenWrite string
  | WorkspaceGet json json json auth
  | ModelInit workspace json json
  | ModelDownload aml_model string bool
  | ModelList workspace
  | LoadModel string
  | LoadTokenizer string

fun is_remote :: "call \<Rightarrow> bool" where
  "is_remote (WorkspaceGet sub rg nm a) = True"
| "is_remote (ModelInit ws nm ver) = True"
| "is_remote (ModelDownload m dir ok) = True"
| "is_remote (ModelList ws) = True"
| "is_remote c = False"

fun is_download :: "call \<Rightarrow> bool" where
  "is_download (ModelDownload m dir ok) = True"
| "is_download c = False"

fun is_write :: "call \<Rightarrow> bool" where
  "is_write (Mkdir p) = True"
| "is_write (OpenWrite p) = True"
| "is_write c = False"

record state =
  files :: filesystem
  calls :: "call list"

definition record_call :: "call \<Rightarrow> state \<Rightarrow> state" where
  "record_call c s = s\<lparr>calls := calls s @ [c]\<rparr>"

section \<open>The module\<close>

definition MODEL_LOADER_CONFIG_JSON :: string where
  "MODEL_LOADER_CONFIG_JSON = ''model_loader_config.json''"

definition CACHE :: string where
  "CACHE = ''cache''"

definition default_model_name :: string where
  "default_model_name = ''led-large-16384-arxiv''"

definition default_subscription :: string where
  "default_subscription = ''091ac194-317f-4880-9f66-a9c23f42cb60''"

definition default_resource_group :: string where
  "default_resource_group = ''dev''"

definition default_ml_workspace :: string where
  "default_ml_workspace = ''ecb-dev''"

definition default_model_version :: string where
  "default_model_version = ''None''"

definition my_device :: "('m, 't) world \<Rightarrow> string" where
  "my_device W = (if cuda_is_available W then ''cuda:0'' else ''cpu'')"

text \<open>\<^verbatim>\<open>d.get(k)\<close> on a dictionary: the value, or \<^verbatim>\<open>None\<close>.\<close>

definition dict_get :: "(string \<times> json) list \<Rightarrow> string \<Rightarrow> json" where
  "dict_get d k = (case map_of d k of None \<Rightarrow> JNull | Some v \<Rightarrow> v)"

text \<open>
  \<^verbatim>\<open>os.path.join\<close> on values: every argument must be a \<^verbatim>\<open>str\<close>, or the call raises
  \<^verbatim>\<open>TypeError\<close>.
\<close>

fun fspaths :: "json list \<Rightarrow> string list option" where
  "fspaths [] = Some []"
| "fspaths (JStr s # vs) = (case fspaths vs of None \<Rightarrow> None | Some ss \<Rightarrow> Some (s # ss))"
| "fspaths (v # vs) = None"

definition py_path_join :: "json list \<Rightarrow> error + string" where
  "py_path_join vs =
     (case fspaths vs of
        None \<Rightarrow> Inl TypeError
      | Some [] \<Rightarrow> Inl TypeError
      | Some (a # ps) \<Rightarrow> Inr (path_join a ps))"

text \<open>
  \<^verbatim>\<open>os.environ.get(K) if os.environ.get(K) else default\<close>: the default stands in for
  a variable that is unset and for one that is set to the empty string.
\<close>

definition env_or :: "(string \<rightharpoonup> string) \<Rightarrow> string \<Rightarrow> string \<Rightarrow> string" where
  "env_or env k d = (case env k of None \<Rightarrow> d | Some v \<Rightarrow> if v = [] then d else v)"

definition env_config :: "(string \<rightharpoonup> string) \<Rightarrow> json" where
  "env_config env =
     JObj [(''model_name'', JStr (env_or env ''MODEL_NAME'' default_model_name)),
           (''subscription'', JStr (env_or env ''SUBSCRIPTION'' default_subscription)),
           (''resource_group'', JStr (env_or env ''RESOURCE_GROUP'' default_resource_group)),
           (''workspace'', JStr (env_or env ''ML_WORKSPACE'' default_ml_workspace)),
           (''model_version'', JStr (env_or env ''MODEL_VERSION'' default_model_version))]"

text \<open>\<^verbatim>\<open>pathlib.Path(base_dir).mkdir(parents=True)\<close>.\<close>

definition mkdir_parents :: "string \<Rightarrow> state \<Rightarrow> error option \<times> state" where
  "mkdir_parents base_dir s =
     (case path_mkdir (files s) (is_absolute base_dir) (path_parts base_dir) False of
        (r, fs') \<Rightarrow> (r, (record_call (Mkdir base_dir) s)\<lparr>files := fs'\<rparr>))"

text \<open>
  \<^verbatim>\<open>read_config(base_dir)\<close>.  The variable \<^verbatim>\<open>cfg\<close> starts as \<^verbatim>\<open>None\<close> and is
  assigned the parsed file when the file exists; the second \<^verbatim>\<open>if\<close> tests
  \<^verbatim>\<open>cfg is None\<close>.
\<close>

definition read_config :: "(string \<rightharpoonup> string) \<Rightarrow> string \<Rightarrow> state \<Rightarrow> (error + json) \<times> state" where
  "read_config env base_dir s =
     (let config_file = path_join base_dir [MODEL_LOADER_CONFIG_JSON] in
      case (if path_exists (files s) config_file
            then (case open_read (files s) config_file of
                    Inl e \<Rightarrow> Inl e
                  | Inr txt \<Rightarrow> json_loads txt)
            else Inr JNull) of
        Inl e \<Rightarrow> (Inl e, s)
      | Inr cfg \<Rightarrow>
          if cfg = JNull then
            (case (if \<not> path_exists (files s) base_dir then mkdir_parents base_dir s
                   else (None, s)) of
               (Some e, s1) \<Rightarrow> (Inl e, s1)
             | (None, s1) \<Rightarrow>
                 (case open_write (files s1) config_file (json_dumps (env_config env)) of
                    Inl e \<Rightarrow> (Inl e, record_call (OpenWrite config_file) s1)
                  | Inr fs2 \<Rightarrow>
                      (Inr (env_config env),
                       (record_call (OpenWrite config_file) s1)\<lparr>files := fs2\<rparr>)))
          else (Inr cfg, s))"

definition build_service_principal :: "(string \<rightharpoonup> string) \<Rightarrow> auth" where
  "build_service_principal env =
     ServicePrincipalAuthentication (env ''TENANT_ID'') (env ''CLIENT_ID'') (env ''CLIENT_SECRET'')"

text \<open>
  \<^verbatim>\<open>download_model_from_workspace(workspace, model_name, target_dir, model_version)\<close>:
  the constructor \<^verbatim>\<open>Model(workspace, name, version)\<close> looks the model up, then
  \<^verbatim>\<open>download(target_dir, exist_ok=True)\<close> fetches it.
\<close>

definition download_model_from_workspace ::
  "('m, 't) world \<Rightarrow> workspace \<Rightarrow> json \<Rightarrow> string \<Rightarrow> json \<Rightarrow> state \<Rightarrow> (error + string) \<times> state" where
  "download_model_from_workspace W workspace model_name target_dir model_version s =
     (let s1 = record_call (ModelInit workspace model_name model_version) s in
      case Model_init W workspace model_name model_version of
        Inl e \<Rightarrow> (Inl e, s1)
      | Inr aml_model \<Rightarrow>
          (let s2 = record_call (ModelDownload aml_model target_dir True) s1 in
           case Model_download W aml_model target_dir True (files s2) of
             (model_path, fs') \<Rightarrow> (model_path, s2\<lparr>files := fs'\<rparr>)))"

text \<open>
  \<^verbatim>\<open>load_model_names()\<close>.  The first operation that needs \<^verbatim>\<open>cfg\<close> to be a
  dictionary is \<^verbatim>\<open>cfg.get('subscription')\<close>; on any other value it raises
  \<^verbatim>\<open>AttributeError\<close>.
\<close>

definition model_label :: "aml_model \<Rightarrow> string" where
  "model_label m = m_name m @ ''::'' @ show_int (m_version m)"

definition load_model_names ::
  "('m, 't) world \<Rightarrow> (string \<rightharpoonup> string) \<Rightarrow> state \<Rightarrow> (error + string list) \<times> state" where
  "load_model_names W env s =
     (case read_config env CACHE s of
        (Inl e, s1) \<Rightarrow> (Inl e, s1)
      | (Inr cfg, s1) \<Rightarrow>
          (let spa = build_service_principal env in
           case cfg of
             JObj d \<Rightarrow>
               (let s2 = record_call (WorkspaceGet (dict_get d ''subscription'')
                           (dict_get d ''resource_group'') (dict_get d ''workspace'') spa) s1 in
                case Workspace_get W (dict_get d ''subscription'')
                       (dict_get d ''resource_group'') (dict_get d ''workspace'') spa of
                  Inl e \<Rightarrow> (Inl e, s2)
                | Inr ws \<Rightarrow>
                    (let s3 = record_call (ModelList ws) s2 in
                     case Model_list W ws of
                       Inl e \<Rightarrow> (Inl e, s3)
                     | Inr models \<Rightarrow> (Inr (map model_label models), s3)))
           | _ \<Rightarrow> (Inl AttributeError, s1)))"

text \<open>
  \<^verbatim>\<open>fetch_model(cfg)\<close>, in steps.  \<open>resolve_cfg\<close> is lines 97 and 98: a missing
  configuration is read with \<^verbatim>\<open>read_config()\<close>.  The first operation on the
  configuration is \<^verbatim>\<open>cfg.get('model_version')\<close>, which raises \<^verbatim>\<open>AttributeError\<close>
  unless it is a dictionary.  \<open>artifact_paths\<close> is lines 99 to 102: the target
  directory and the path of the downloaded model.  \<open>fetch_remote\<close> is the branch of
  lines 104 to 111, taken when that path does not exist; the call on line 110 passes
  no \<^verbatim>\<open>model_version\<close>, so the parameter has its default \<^verbatim>\<open>None\<close>.
  \<open>from_pretrained\<close> is lines 115 to 118.
\<close>

definition artifact_paths :: "(string \<times> json) list \<Rightarrow> error + (string \<times> string)" where
  "artifact_paths d =
     (let download_path = path_join ''.'' [CACHE];
          model_version = dict_get d ''model_version''
      in case map_of d ''model_name'' of
           None \<Rightarrow> Inl (KeyError ''model_name'')
         | Some name \<Rightarrow>
             (case py_path_join [JStr download_path, name,
                     if model_version \<noteq> JNull then model_version else JStr ''None''] of
                Inl e \<Rightarrow> Inl e
              | Inr target_dir \<Rightarrow>
                  (case py_path_join [JStr target_dir, dict_get d ''model_name''] of
                     Inl e \<Rightarrow> Inl e
                   | Inr downloaded_model_path \<Rightarrow> Inr (target_dir, downloaded_model_path))))"

definition fetch_remote ::
  "('m, 't) world \<Rightarrow> auth \<Rightarrow> (string \<times> json) list \<Rightarrow> string \<Rightarrow> state \<Rightarrow> error option \<times> state" where
  "fetch_remote W a d target_dir s =
     (let s1 = record_call (WorkspaceGet (dict_get d ''subscription'')
                 (dict_get d ''resource_group'') (dict_get d ''workspace'') a) s in
      case Workspace_get W (dict_get d ''subscription'')
             (dict_get d ''resource_group'') (dict_get d ''workspace'') a of
        Inl e \<Rightarrow> (Some e, s1)
      | Inr ws \<Rightarrow>
          (case download_model_from_workspace W ws (dict_get d ''model_name'') target_dir JNull s1 of
             (Inl e, s2) \<Rightarrow> (Some e, s2)
           | (Inr model_path, s2) \<Rightarrow> (None, s2)))"

definition from_pretrained ::
  "('m, 't) world \<Rightarrow> string \<Rightarrow> state \<Rightarrow> (error + 'm \<times> 't) \<times> state" where
  "from_pretrained W downloaded_model_path s =
     (let s1 = record_call (LoadModel downloaded_model_path) s in
      case LED_from_pretrained W (files s1) downloaded_model_path of
        Inl e \<Rightarrow> (Inl e, s1)
      | Inr model \<Rightarrow>
          (let s2 = record_call (LoadTokenizer downloaded_model_path) s1 in
           case Tokenizer_from_pretrained W (files s2) downloaded_model_path of
             Inl e \<Rightarrow> (Inl e, s2)
           | Inr tokenizer \<Rightarrow> (Inr (Module_to W model (my_device W), tokenizer), s2)))"

definition resolve_cfg :: "(string \<rightharpoonup> string) \<Rightarrow> json \<Rightarrow> state \<Rightarrow> (error + json) \<times> state" where
  "resolve_cfg env cfg0 s = (if cfg0 = JNull then read_config env CACHE s else (Inr cfg0, s))"

definition fetch_model ::
  "('m, 't) world \<Rightarrow> (string \<rightharpoonup> string) \<Rightarrow> json \<Rightarrow> state \<Rightarrow> (error + 'm \<times> 't) \<times> state" where
  "fetch_model W env cfg0 s =
     (let a = build_service_principal env in
      case resolve_cfg env cfg0 s of
        (Inl e, s1) \<Rightarrow> (Inl e, s1)
      | (Inr cfg, s1) \<Rightarrow>
          (case cfg of
             JObj d \<Rightarrow>
               (case artifact_paths d of
                  Inl e \<Rightarrow> (Inl e, s1)
                | Inr (target_dir, downloaded_model_path) \<Rightarrow>
                    (case (if \<not> path_exists (files s1) downloaded_model_path
                           then fetch_remote W a d target_dir s1
                           else (None, s1)) of
                       (Some e, s2) \<Rightarrow> (Inl e, s2)
                     | (None, s2) \<Rightarrow> from_pretrained W downloaded_model_path s2))
           | _ \<Rightarrow> (Inl AttributeError, s1)))"

section \<open>Notions used in the statements\<close>

text \<open>
  A filesystem is a tree: every node other than the root lies in a directory.
\<close>

definition wf_fs :: "filesystem \<Rightarrow> bool" where
  "wf_fs fs \<longleftrightarrow> (\<forall>k. k \<noteq> [] \<longrightarrow> nodes fs k \<noteq> None \<longrightarrow> nodes fs (butlast k) = Some Dir)"

text \<open>A file name that is a single component of a path.\<close>

definition plain_name :: "string \<Rightarrow> bool" where
  "plain_name n \<longleftrightarrow> n \<noteq> [] \<and> CHR ''/'' \<notin> set n \<and> n \<noteq> ''.'' \<and> n \<noteq> ''..''"

text \<open>The path \<open>b\<close> leads to the directory with the key \<open>k\<close>.\<close>

definition dir_key :: "filesystem \<Rightarrow> string \<Rightarrow> string list \<Rightarrow> bool" where
  "dir_key fs b k \<longleftrightarrow>
     b \<noteq> [] \<and> walk (nodes fs) (start_dir fs (is_absolute b)) (split_slash b) = Inr k
     \<and> nodes fs k = Some Dir"

text \<open>
  The base directory is usable: it is a directory, or it does not exist and
  \<^verbatim>\<open>Path(base_dir).mkdir(parents=True)\<close> succeeds.
\<close>

definition dir_ready :: "filesystem \<Rightarrow> string \<Rightarrow> bool" where
  "dir_ready fs base_dir \<longleftrightarrow>
     (if path_exists fs base_dir then os_stat fs base_dir = Inr Dir
      else fst (path_mkdir fs (is_absolute base_dir) (path_parts base_dir) False) = None)"

text \<open>The filesystem after the directory has been made, when it was missing.\<close>

definition after_mkdir :: "filesystem \<Rightarrow> string \<Rightarrow> filesystem" where
  "after_mkdir fs b =
     (if path_exists fs b then fs
      else snd (path_mkdir fs (is_absolute b) (path_parts b) False))"

definition config_path :: "string \<Rightarrow> string" where
  "config_path base_dir = path_join base_dir [MODEL_LOADER_CONFIG_JSON]"

text \<open>
  A record with the five fields, each a string that is not empty.
\<close>

definition field_names :: "string list" where
  "field_names = [''model_name'', ''subscription'', ''resource_group'', ''workspace'', ''model_version'']"

definition filled :: "(string \<times> json) list \<Rightarrow> string \<Rightarrow> bool" where
  "filled d k = (case map_of d k of Some (JStr v) \<Rightarrow> v \<noteq> [] | _ \<Rightarrow> False)"

definition complete_record :: "json \<Rightarrow> bool" where
  "complete_record cfg = (case cfg of JObj d \<Rightarrow> list_all (filled d) field_names | _ \<Rightarrow> False)"

text \<open>The remote calls of a run, and its calls that write to the local filesystem.\<close>

definition remote_calls :: "state \<Rightarrow> call list" where
  "remote_calls s = filter is_remote (calls s)"

definition write_calls :: "state \<Rightarrow> call list" where
  "write_calls s = filter is_write (calls s)"

definition download_calls :: "state \<Rightarrow> call list" where
  "download_calls s = filter is_download (calls s)"

subsection \<open>Concrete filesystems, environments and collaborators\<close>

text \<open>
  A process with the working directory \<^verbatim>\<open>/app\<close>: the fresh filesystem, the one with a
  configuration file of a given content in \<^verbatim>\<open>/app/cache\<close>, and the one where the
  artifact of the model \<^verbatim>\<open>m\<close>, version \<^verbatim>\<open>3\<close>, is in the cache.
\<close>

definition app_fs :: "(string list \<rightharpoonup> node) \<Rightarrow> filesystem" where
  "app_fs t = \<lparr>cwd = [''app''], nodes = t\<rparr>"

definition fresh_nodes :: "string list \<rightharpoonup> node" where
  "fresh_nodes = [[] \<mapsto> Dir, [''app''] \<mapsto> Dir]"

definition config_nodes :: "string \<Rightarrow> string list \<rightharpoonup> node" where
  "config_nodes txt =
     fresh_nodes([''app'', ''cache''] \<mapsto> Dir,
                 [''app'', ''cache'', ''model_loader_config.json''] \<mapsto> File txt)"

definition cached_nodes :: "string list \<rightharpoonup> node" where
  "cached_nodes =
     fresh_nodes([''app'', ''cache''] \<mapsto> Dir,
                 [''app'', ''cache'', ''m''] \<mapsto> Dir,
                 [''app'', ''cache'', ''m'', ''3''] \<mapsto> Dir,
                 [''app'', ''cache'', ''m'', ''3'', ''m''] \<mapsto> Dir)"

definition start :: "(string list \<rightharpoonup> node) \<Rightarrow> state" where
  "start t = \<lparr>files = app_fs t, calls = []\<rparr>"

definition m3_cfg :: "(string \<times> json) list" where
  "m3_cfg = [(''model_name'', JStr ''m''), (''subscription'', JStr ''s''),
             (''resource_group'', JStr ''r''), (''workspace'', JStr ''w''),
             (''model_version'', JStr ''3'')]"

text \<open>
  A workspace that knows every model under the version 7 and downloads it into
  \<^verbatim>\<open>target_dir/<name>\<close>, and a loader that accepts every directory.
\<close>

definition toy_world :: "(string, string) world" where
  "toy_world =
     \<lparr>Workspace_get = (\<lambda>sub rg nm a. case nm of JStr n \<Rightarrow> Inr (Workspace n)
                                        | _ \<Rightarrow> Inl (CollaboratorError ''workspace'')),
      Model_init = (\<lambda>ws nm ver. case nm of JStr n \<Rightarrow> Inr (Model n 7)
                                  | _ \<Rightarrow> Inl (CollaboratorError ''model'')),
      Model_download = (\<lambda>m dir ok fs.
         (Inr (join2 dir (m_name m)),
          snd (path_mkdir fs (is_absolute (join2 dir (m_name m)))
                 (path_parts (join2 dir (m_name m))) True))),
      Model_list = (\<lambda>ws. Inr [Model ''m'' 7, Model ''led'' 12]),
      cuda_is_available = False,
      LED_from_pretrained = (\<lambda>fs p. if os_stat fs p = Inr Dir then Inr (''model:'' @ p)
                                      else Inl (CollaboratorError ''loader'')),
      Module_to = (\<lambda>m dev. m @ ''@'' @ dev),
      Tokenizer_from_pretrained = (\<lambda>fs p. if os_stat fs p = Inr Dir then Inr (''tokenizer:'' @ p)
                                            else Inl (CollaboratorError ''loader''))\<rparr>"

section \<open>Paths and files: supporting lemmas\<close>


lemma walk_append:
  "walk t cur (xs @ ys) = (case walk t cur xs of Inl e \<Rightarrow> Inl e | Inr k \<Rightarrow> walk t k ys)"
  by (induction xs arbitrary: cur) (auto split: option.splits node.splits)

lemma walk_upd:
  "walk t cur cs = Inr r \<Longrightarrow> t k \<noteq> Some Dir \<Longrightarrow> walk (t(k \<mapsto> v)) cur cs = Inr r"
proof (induction cs arbitrary: cur)
  case Nil
  then show ?case by simp
next
  case (Cons c cs)
  from Cons.prems have d: "t cur = Some Dir"
    by (auto split: option.splits node.splits)
  with Cons.prems have "cur \<noteq> k" by auto
  with d Cons show ?case by (auto split: if_splits)
qed

lemma walk_filter:
  "walk t cur (filter (\<lambda>c. c \<noteq> [] \<and> c \<noteq> ''.'') cs) = Inr k \<Longrightarrow> t k = Some Dir
   \<Longrightarrow> walk t cur cs = Inr k"
proof (induction cs arbitrary: cur)
  case Nil
  then show ?case by simp
next
  case (Cons c cs)
  show ?case
  proof (cases "c = [] \<or> c = ''.''")
    case True
    with Cons.prems have w: "walk t cur (filter (\<lambda>c. c \<noteq> [] \<and> c \<noteq> ''.'') cs) = Inr k" by auto
    have "t cur = Some Dir"
    proof (cases "filter (\<lambda>c. c \<noteq> [] \<and> c \<noteq> ''.'') cs")
      case Nil
      with w Cons.prems show ?thesis by simp
    next
      case (Cons a list)
      with w show ?thesis by (auto split: option.splits node.splits)
    qed
    with True Cons.IH[OF w Cons.prems(2)] show ?thesis by auto
  next
    case False
    with Cons show ?thesis by (auto split: option.splits node.splits if_splits)
  qed
qed


lemma split_slash_nonempty: "split_slash a \<noteq> []"
  by (induction a) (auto split: list.splits)

lemma split_slash_append: "split_slash (a @ CHR ''/'' # b) = split_slash a @ split_slash b"
proof (induction a)
  case Nil
  then show ?case by simp
next
  case (Cons c a)
  obtain x xs where x: "split_slash a = x # xs"
    using split_slash_nonempty[of a] by (cases "split_slash a") auto
  with Cons show ?case by simp
qed

lemma split_slash_plain: "CHR ''/'' \<notin> set n \<Longrightarrow> split_slash n = [n]"
  by (induction n) auto

lemma join2_split:
  assumes b: "b \<noteq> []" and n: "plain_name n"
  shows "\<exists>pre. split_slash (join2 b n) = pre @ [n] \<and>
           (split_slash b = pre \<or> split_slash b = pre @ [[]]) \<and>
           is_absolute (join2 b n) = is_absolute b \<and> join2 b n \<noteq> []"
proof -
  from n have hn: "hd n \<noteq> CHR ''/''" "n \<noteq> []" "split_slash n = [n]"
    by (auto simp: plain_name_def split_slash_plain) (cases n; auto)
  show ?thesis
  proof (cases "last b = CHR ''/''")
    case True
    with b obtain b' where b': "b = b' @ [CHR ''/'']"
      by (metis append_butlast_last_id)
    have j: "join2 b n = b' @ CHR ''/'' # n"
      using hn True b b' by (simp add: join2_def)
    have "split_slash b = split_slash b' @ [[]]"
      using split_slash_append[of b' "[]"] b' by simp
    moreover have "split_slash (join2 b n) = split_slash b' @ [n]"
      using j split_slash_append[of b' n] hn by simp
    moreover have "is_absolute (join2 b n) = is_absolute b"
      using j b' by (cases b') (auto simp: is_absolute_def)
    ultimately show ?thesis using j by auto
  next
    case False
    have j: "join2 b n = b @ CHR ''/'' # n"
      using hn False b by (simp add: join2_def)
    have "split_slash (join2 b n) = split_slash b @ [n]"
      using j split_slash_append[of b n] hn by simp
    moreover have "is_absolute (join2 b n) = is_absolute b"
      using j b by (cases b) (auto simp: is_absolute_def)
    ultimately show ?thesis using j by auto
  qed
qed

lemma os_stat_dir_key: "os_stat fs b = Inr Dir \<longleftrightarrow> (\<exists>k. dir_key fs b k)"
  by (auto simp: os_stat_def node_at_def dir_key_def split: sum.splits option.splits)

lemma child_walk:
  assumes dk: "dir_key fs b k" and n: "plain_name n"
  shows "join2 b n \<noteq> []"
    and "walk (nodes fs) (start_dir fs (is_absolute (join2 b n))) (butlast (split_slash (join2 b n))) = Inr k"
    and "last (split_slash (join2 b n)) = n"
    and "walk (nodes fs) (start_dir fs (is_absolute (join2 b n))) (split_slash (join2 b n)) = Inr (k @ [n])"
proof -
  from dk have b: "b \<noteq> []" by (simp add: dir_key_def)
  from join2_split[OF b n] obtain pre where
    pre: "split_slash (join2 b n) = pre @ [n]"
      "split_slash b = pre \<or> split_slash b = pre @ [[]]"
      "is_absolute (join2 b n) = is_absolute b" "join2 b n \<noteq> []" by blast
  let ?t = "nodes fs" and ?st = "start_dir fs (is_absolute b)"
  from dk have w: "walk ?t ?st (split_slash b) = Inr k" and d: "?t k = Some Dir"
    by (simp_all add: dir_key_def)
  have wp: "walk ?t ?st pre = Inr k"
  proof -
    from pre(2) show ?thesis
    proof
      assume "split_slash b = pre" with w show ?thesis by simp
    next
      assume "split_slash b = pre @ [[]]"
      with w show ?thesis
        by (auto simp: walk_append split: sum.splits option.splits node.splits)
    qed
  qed
  show "join2 b n \<noteq> []" by (rule pre(4))
  show "walk (nodes fs) (start_dir fs (is_absolute (join2 b n))) (butlast (split_slash (join2 b n))) = Inr k"
    using wp pre by simp
  show "last (split_slash (join2 b n)) = n" using pre by simp
  show "walk (nodes fs) (start_dir fs (is_absolute (join2 b n))) (split_slash (join2 b n)) = Inr (k @ [n])"
    using wp pre d n by (simp add: walk_append plain_name_def)
qed

lemma open_write_child:
  assumes dk: "dir_key fs b k" and n: "plain_name n"
    and nd: "nodes fs (k @ [n]) \<noteq> Some Dir"
  shows "open_write fs (join2 b n) txt = Inr (fs\<lparr>nodes := (nodes fs)(k @ [n] \<mapsto> File txt)\<rparr>)"
proof -
  note cw = child_walk[OF dk n]
  from dk have d: "nodes fs k = Some Dir" by (simp add: dir_key_def)
  from n have "\<not> is_special n" by (simp add: is_special_def plain_name_def)
  with cw d nd show ?thesis
    by (auto simp: open_write_def parent_of_def split: option.splits node.splits)
qed

lemma absent_child:
  assumes dk: "dir_key fs b k" and n: "plain_name n"
    and ne: "\<not> path_exists fs (join2 b n)"
  shows "nodes fs (k @ [n]) = None"
  using child_walk(1,4)[OF dk n] ne
  by (auto simp: path_exists_def os_stat_def node_at_def split: sum.splits option.splits)

lemma after_write_child:
  assumes dk: "dir_key fs b k" and n: "plain_name n"
    and none: "nodes fs (k @ [n]) \<noteq> Some Dir"
    and fs': "fs' = fs\<lparr>nodes := (nodes fs)(k @ [n] \<mapsto> File txt)\<rparr>"
  shows "os_stat fs' (join2 b n) = Inr (File txt)" and "dir_key fs' b k"
proof -
  note cw = child_walk[OF dk n]
  from dk have d: "nodes fs k = Some Dir" and b: "b \<noteq> []"
    and w: "walk (nodes fs) (start_dir fs (is_absolute b)) (split_slash b) = Inr k"
    by (simp_all add: dir_key_def)
  have st: "start_dir fs' ab = start_dir fs ab" for ab
    by (simp add: fs' start_dir_def)
  have "walk (nodes fs') (start_dir fs' (is_absolute (join2 b n))) (split_slash (join2 b n)) = Inr (k @ [n])"
    unfolding st using walk_upd[OF cw(4) none] by (simp add: fs')
  then show "os_stat fs' (join2 b n) = Inr (File txt)"
    using cw(1) by (simp add: os_stat_def node_at_def fs')
  have "walk (nodes fs') (start_dir fs' (is_absolute b)) (split_slash b) = Inr k"
    unfolding st using walk_upd[OF w none] by (simp add: fs')
  then show "dir_key fs' b k"
    using b d by (simp add: dir_key_def fs')
qed


lemma os_mkdir_dir:
  assumes mk: "os_mkdir fs ab parts = Inr fs1"
    and parts: "\<forall>c\<in>set parts. c \<noteq> [] \<and> c \<noteq> ''.''"
  shows "\<exists>k. walk (nodes fs1) (start_dir fs1 ab) parts = Inr k \<and> nodes fs1 k = Some Dir"
proof -
  from mk have ne: "parts \<noteq> []"
    by (auto simp: os_mkdir_def split: option.splits)
  with mk obtain k where k: "parent_of fs ab parts = Inr k"
    and l: "last parts \<noteq> ''..''" and none: "nodes fs (k @ [last parts]) = None"
    and fs1: "fs1 = fs\<lparr>nodes := (nodes fs)(k @ [last parts] \<mapsto> Dir)\<rparr>"
    by (auto simp: os_mkdir_def split: sum.splits option.splits if_splits)
  from k have w: "walk (nodes fs) (start_dir fs ab) (butlast parts) = Inr k"
    and d: "nodes fs k = Some Dir"
    by (auto simp: parent_of_def split: sum.splits option.splits node.splits)
  have st: "start_dir fs1 ab = start_dir fs ab" by (simp add: fs1 start_dir_def)
  from ne parts have l2: "last parts \<noteq> []" "last parts \<noteq> ''.''"
    using last_in_set by blast+
  have "walk (nodes fs1) (start_dir fs ab) (butlast parts) = Inr k"
    using walk_upd[OF w, of "k @ [last parts]" Dir] none by (simp add: fs1)
  then have "walk (nodes fs1) (start_dir fs ab) (butlast parts @ [last parts]) = Inr (k @ [last parts])"
    using d l l2 by (simp add: walk_append fs1)
  with ne st show ?thesis by (simp add: fs1)
qed

lemma path_mkdir_top:
  "path_mkdir fs ab parts False = (None, fs1) \<Longrightarrow> \<exists>fs0. os_mkdir fs0 ab parts = Inr fs1"
  by (subst (asm) path_mkdir.simps) (auto split: sum.splits if_splits prod.splits option.splits)

lemma path_mkdir_dir_key:
  assumes "path_mkdir fs (is_absolute b) (path_parts b) False = (None, fs1)"
  shows "\<exists>k. dir_key fs1 b k"
proof -
  from path_mkdir_top[OF assms] obtain fs0 where
    mk: "os_mkdir fs0 (is_absolute b) (path_parts b) = Inr fs1" by blast
  have "\<forall>c\<in>set (path_parts b). c \<noteq> [] \<and> c \<noteq> ''.''" by (simp add: path_parts_def)
  from os_mkdir_dir[OF mk this] obtain k where
    k: "walk (nodes fs1) (start_dir fs1 (is_absolute b)) (path_parts b) = Inr k" "nodes fs1 k = Some Dir"
    by blast
  from mk have "path_parts b \<noteq> []" by (auto simp: os_mkdir_def split: option.splits)
  then have "b \<noteq> []" by (auto simp: path_parts_def)
  moreover have "walk (nodes fs1) (start_dir fs1 (is_absolute b)) (split_slash b) = Inr k"
    using walk_filter[of "nodes fs1" _ "split_slash b" k] k by (simp add: path_parts_def)
  ultimately show ?thesis using k by (auto simp: dir_key_def)
qed


lemma os_mkdir_wf:
  assumes wf: "wf_fs fs" and mk: "os_mkdir fs ab parts = Inr fs1"
  shows "wf_fs fs1"
proof -
  from mk obtain k where k: "parent_of fs ab parts = Inr k"
    and none: "nodes fs (k @ [last parts]) = None"
    and fs1: "fs1 = fs\<lparr>nodes := (nodes fs)(k @ [last parts] \<mapsto> Dir)\<rparr>"
    by (auto simp: os_mkdir_def split: sum.splits option.splits if_splits)
  from k have d: "nodes fs k = Some Dir"
    by (auto simp: parent_of_def split: sum.splits option.splits node.splits)
  show ?thesis
    unfolding wf_fs_def
  proof (intro allI impI)
    fix x :: "string list"
    assume x: "x \<noteq> []" and ex: "nodes fs1 x \<noteq> None"
    show "nodes fs1 (butlast x) = Some Dir"
    proof (cases "x = k @ [last parts]")
      case True
      then have "butlast x = k" by simp
      with d none show ?thesis by (auto simp: fs1)
    next
      case False
      with ex have "nodes fs x \<noteq> None" by (simp add: fs1)
      with wf x have "nodes fs (butlast x) = Some Dir" by (simp add: wf_fs_def)
      then show ?thesis by (simp add: fs1)
    qed
  qed
qed

lemma path_mkdir_wf: "wf_fs fs \<Longrightarrow> wf_fs (snd (path_mkdir fs ab parts ok))"
proof (induction fs ab parts ok rule: path_mkdir.induct)
  case (1 fs ab parts exist_ok)
  show ?case
  proof (cases "os_mkdir fs ab parts")
    case (Inr fs')
    with 1 show ?thesis by (subst path_mkdir.simps) (simp add: os_mkdir_wf)
  next
    case (Inl e)
    show ?thesis
    proof (cases "e = FileNotFoundError \<and> parts \<noteq> []")
      case False
      with Inl 1 show ?thesis by (subst path_mkdir.simps) auto
    next
      case True
      with Inl 1 have wf1: "wf_fs (snd (path_mkdir fs ab (butlast parts) True))" by simp
      obtain r fs1 where p: "path_mkdir fs ab (butlast parts) True = (r, fs1)"
        by (cases "path_mkdir fs ab (butlast parts) True")
      with wf1 have wf1': "wf_fs fs1" by simp
      show ?thesis
        using Inl True p wf1' os_mkdir_wf[OF wf1']
        by (subst path_mkdir.simps) (auto split: option.splits sum.splits)
    qed
  qed
qed

lemma os_mkdir_fresh_dir:
  assumes wf: "wf_fs fs" and mk: "os_mkdir fs ab parts = Inr fs1"
    and parts: "\<forall>c\<in>set parts. c \<noteq> [] \<and> c \<noteq> ''.''"
  shows "\<exists>k. walk (nodes fs1) (start_dir fs1 ab) parts = Inr k \<and> nodes fs1 k = Some Dir
           \<and> (\<forall>n. nodes fs1 (k @ [n]) = None)"
proof -
  from mk have ne: "parts \<noteq> []"
    by (auto simp: os_mkdir_def split: option.splits)
  with mk obtain k where k: "parent_of fs ab parts = Inr k"
    and l: "last parts \<noteq> ''..''" and none: "nodes fs (k @ [last parts]) = None"
    and fs1: "fs1 = fs\<lparr>nodes := (nodes fs)(k @ [last parts] \<mapsto> Dir)\<rparr>"
    by (auto simp: os_mkdir_def split: sum.splits option.splits if_splits)
  from k have w: "walk (nodes fs) (start_dir fs ab) (butlast parts) = Inr k"
    and d: "nodes fs k = Some Dir"
    by (auto simp: parent_of_def split: sum.splits option.splits node.splits)
  have st: "start_dir fs1 ab = start_dir fs ab" by (simp add: fs1 start_dir_def)
  from ne parts have l2: "last parts \<noteq> []" "last parts \<noteq> ''.''"
    using last_in_set by blast+
  have "walk (nodes fs1) (start_dir fs ab) (butlast parts) = Inr k"
    using walk_upd[OF w, of "k @ [last parts]" Dir] none by (simp add: fs1)
  then have "walk (nodes fs1) (start_dir fs ab) (butlast parts @ [last parts]) = Inr (k @ [last parts])"
    using d l l2 by (simp add: walk_append fs1)
  then have a: "walk (nodes fs1) (start_dir fs1 ab) parts = Inr (k @ [last parts])"
    using ne st by simp
  have b: "nodes fs1 (k @ [last parts]) = Some Dir" by (simp add: fs1)
  have c: "nodes fs1 ((k @ [last parts]) @ [n]) = None" for n
  proof -
    have "nodes fs ((k @ [last parts]) @ [n]) = None"
    proof (rule ccontr)
      assume "nodes fs ((k @ [last parts]) @ [n]) \<noteq> None"
      with wf have "nodes fs (butlast ((k @ [last parts]) @ [n])) = Some Dir"
        unfolding wf_fs_def by blast
      with none show False by (simp add: butlast_append)
    qed
    then show ?thesis by (simp add: fs1)
  qed
  from a b c show ?thesis by blast
qed

lemma path_mkdir_top_wf:
  assumes "path_mkdir fs ab parts False = (None, fs1)" and "wf_fs fs"
  shows "\<exists>fs0. wf_fs fs0 \<and> os_mkdir fs0 ab parts = Inr fs1"
proof (cases "os_mkdir fs ab parts")
  case (Inr fs')
  with assms show ?thesis by (subst (asm) path_mkdir.simps) auto
next
  case (Inl e)
  obtain r fs0 where p: "path_mkdir fs ab (butlast parts) True = (r, fs0)"
    by (cases "path_mkdir fs ab (butlast parts) True")
  from path_mkdir_wf[OF assms(2), of ab "butlast parts" True] p have "wf_fs fs0" by simp
  with assms(1) Inl p show ?thesis
    by (subst (asm) path_mkdir.simps) (auto split: if_splits option.splits sum.splits)
qed

lemma path_mkdir_fresh_dir:
  assumes "path_mkdir fs (is_absolute b) (path_parts b) False = (None, fs1)" and "wf_fs fs"
  shows "\<exists>k. dir_key fs1 b k \<and> (\<forall>n. nodes fs1 (k @ [n]) = None)"
proof -
  from path_mkdir_top_wf[OF assms] obtain fs0 where wf0: "wf_fs fs0"
    and mk: "os_mkdir fs0 (is_absolute b) (path_parts b) = Inr fs1" by blast
  have "\<forall>c\<in>set (path_parts b). c \<noteq> [] \<and> c \<noteq> ''.''" by (simp add: path_parts_def)
  from os_mkdir_fresh_dir[OF wf0 mk this] obtain k where
    k: "walk (nodes fs1) (start_dir fs1 (is_absolute b)) (path_parts b) = Inr k"
      "nodes fs1 k = Some Dir" "\<forall>n. nodes fs1 (k @ [n]) = None"
    by blast
  from mk have "path_parts b \<noteq> []" by (auto simp: os_mkdir_def split: option.splits)
  then have "b \<noteq> []" by (auto simp: path_parts_def)
  moreover have "walk (nodes fs1) (start_dir fs1 (is_absolute b)) (split_slash b) = Inr k"
    using walk_filter[of "nodes fs1" _ "split_slash b" k] k by (simp add: path_parts_def)
  ultimately show ?thesis using k by (auto simp: dir_key_def)
qed

section \<open>Writing the configuration: supporting lemmas\<close>


lemma plain_config_name: "plain_name MODEL_LOADER_CONFIG_JSON"
  by (simp add: plain_name_def MODEL_LOADER_CONFIG_JSON_def)

lemma config_path_join2: "config_path b = join2 b MODEL_LOADER_CONFIG_JSON"
  by (simp add: config_path_def path_join_def)

lemma dir_ready_key:
  assumes rdy: "dir_ready fs b" and wf: "wf_fs fs"
    and ne: "\<not> path_exists fs (config_path b)"
  shows "\<exists>k. dir_key (if path_exists fs b then fs
                     else snd (path_mkdir fs (is_absolute b) (path_parts b) False)) b k
           \<and> nodes (if path_exists fs b then fs
                     else snd (path_mkdir fs (is_absolute b) (path_parts b) False))
                (k @ [MODEL_LOADER_CONFIG_JSON]) = None"
proof (cases "path_exists fs b")
  case True
  with rdy have "os_stat fs b = Inr Dir" by (simp add: dir_ready_def)
  then obtain k where k: "dir_key fs b k" by (auto simp: os_stat_dir_key)
  from absent_child[OF k plain_config_name] ne True k show ?thesis
    by (auto simp: config_path_join2)
next
  case False
  obtain fs1 where p: "path_mkdir fs (is_absolute b) (path_parts b) False = (None, fs1)"
    using rdy False by (cases "path_mkdir fs (is_absolute b) (path_parts b) False") (auto simp: dir_ready_def)
  from path_mkdir_fresh_dir[OF p wf] False p show ?thesis by auto
qed

lemma read_config_fresh:
  assumes ne: "\<not> path_exists (files s) (config_path b)"
    and rdy: "dir_ready (files s) b" and wf: "wf_fs (files s)"
  shows "\<exists>k. dir_key (after_mkdir (files s) b) b k
          \<and> nodes (after_mkdir (files s) b) (k @ [MODEL_LOADER_CONFIG_JSON]) = None
          \<and> read_config env b s =
              (Inr (env_config env),
               \<lparr>files = (after_mkdir (files s) b)\<lparr>nodes := (nodes (after_mkdir (files s) b))
                           (k @ [MODEL_LOADER_CONFIG_JSON] \<mapsto> File (json_dumps (env_config env)))\<rparr>,
                calls = calls s @ (if path_exists (files s) b then [] else [Mkdir b])
                          @ [OpenWrite (config_path b)]\<rparr>)"
proof -
  from dir_ready_key[OF rdy wf ne] obtain k where
    k: "dir_key (after_mkdir (files s) b) b k"
    and none: "nodes (after_mkdir (files s) b) (k @ [MODEL_LOADER_CONFIG_JSON]) = None"
    by (auto simp: after_mkdir_def)
  from none have nd: "nodes (after_mkdir (files s) b) (k @ [MODEL_LOADER_CONFIG_JSON]) \<noteq> Some Dir" by simp
  note ow = open_write_child[OF k plain_config_name nd, folded config_path_join2]
  have "read_config env b s =
              (Inr (env_config env),
               \<lparr>files = (after_mkdir (files s) b)\<lparr>nodes := (nodes (after_mkdir (files s) b))
                           (k @ [MODEL_LOADER_CONFIG_JSON] \<mapsto> File (json_dumps (env_config env)))\<rparr>,
                calls = calls s @ (if path_exists (files s) b then [] else [Mkdir b])
                          @ [OpenWrite (config_path b)]\<rparr>)"
  proof (cases "path_exists (files s) b")
    case True
    with ne ow show ?thesis
      by (simp add: read_config_def config_path_def[symmetric] after_mkdir_def record_call_def)
  next
    case False
    from rdy False have "fst (path_mkdir (files s) (is_absolute b) (path_parts b) False) = None"
      by (simp add: dir_ready_def)
    then have p: "path_mkdir (files s) (is_absolute b) (path_parts b) False = (None, after_mkdir (files s) b)"
      using False by (cases "path_mkdir (files s) (is_absolute b) (path_parts b) False") (simp add: after_mkdir_def)
    with ne ow False show ?thesis
      by (simp add: read_config_def config_path_def[symmetric] mkdir_parents_def record_call_def)
  qed
  with k none show ?thesis by blast
qed

section \<open>The encoder and the decoder: supporting lemmas\<close>


lemma hexval_nth:
  assumes "x < 16"
  shows "hexval (''0123456789abcdef'' ! x) = Some x"
proof (cases "x < 8")
  case True
  then consider "x = 0" | "x = 1" | "x = 2" | "x = 3" | "x = 4" | "x = 5" | "x = 6" | "x = 7"
    by linarith
  then show ?thesis
    by cases (simp_all add: hexval_def)
next
  case False
  with assms consider "x = 8" | "x = 9" | "x = 10" | "x = 11"
    | "x = 12" | "x = 13" | "x = 14" | "x = 15"
    by linarith
  then show ?thesis
    by cases (simp_all add: hexval_def)
qed

lemma hexval_hexdigit: "hexval (hexdigit m) = Some (m mod 16)"
  by (simp add: hexdigit_def hexval_nth)

lemma hex4_byte:
  assumes "n < 256"
  shows "hex4 (CHR ''0'') (CHR ''0'') (hexdigit (n div 16)) (hexdigit n) = Some n"
proof -
  have z: "hexval (CHR ''0'') = Some 0" by (simp add: hexval_def)
  from assms have "n div 16 mod 16 = n div 16" by simp
  then have "(n div 16) mod 16 * 16 + n mod 16 = n" by simp
  then show ?thesis by (simp add: hex4_def z hexval_hexdigit)
qed

lemma scan_escape: "scanstring (escape_char c @ rest) = cons_result c (scanstring rest)"
proof -
  have n: "(of_char c :: nat) < 256" by simp
  have c: "char_of (of_char c :: nat) = c" by simp
  consider (special) "c \<in> {CHR 0x5C, CHR 0x22, CHR 0x08, CHR 0x0C, CHR 0x0A, CHR 0x0D, CHR 0x09}"
    | (plain) "c \<notin> {CHR 0x5C, CHR 0x22, CHR 0x08, CHR 0x0C, CHR 0x0A, CHR 0x0D, CHR 0x09}"
        "0x20 \<le> (of_char c :: nat) \<and> (of_char c :: nat) \<le> 0x7E"
    | (hex) "c \<notin> {CHR 0x5C, CHR 0x22, CHR 0x08, CHR 0x0C, CHR 0x0A, CHR 0x0D, CHR 0x09}"
        "\<not> (0x20 \<le> (of_char c :: nat) \<and> (of_char c :: nat) \<le> 0x7E)"
    by blast
  then show ?thesis
  proof cases
    case special
    then show ?thesis by (auto simp: escape_char_def unescape_def)
  next
    case plain
    then show ?thesis by (simp add: escape_char_def)
  next
    case hex
    then show ?thesis using hex4_byte[OF n] c by (simp add: escape_char_def)
  qed
qed

lemma scanstring_body:
  "scanstring (concat (map escape_char s) @ CHR 0x22 # rest) = Inr (s, rest)"
  by (induction s) (simp_all add: scan_escape cons_result_def)


lemma dict_set_new: "k \<notin> fst ` set acc \<Longrightarrow> dict_set acc k v = acc @ [(k, v)]"
  by (induction acc) auto

lemma skip_ws_nonws [simp]: "\<not> is_ws c \<Longrightarrow> skip_ws (c # cs) = c # cs"
  by (simp add: skip_ws_def)

lemma skip_ws_space [simp]: "skip_ws (CHR '' '' # cs) = skip_ws cs"
  by (simp add: skip_ws_def is_ws_def)

lemma scan_member_last:
  assumes "k \<notin> fst ` set acc"
  shows "scan_object (Suc (Suc n)) acc
           (tl (py_encode_basestring_ascii k @ '': '' @ py_encode_basestring_ascii v) @ CHR ''}'' # rest)
         = Inr (JObj (acc @ [(k, JStr v)]), rest)"
  using assms
  by (simp add: py_encode_basestring_ascii_def scanstring_body is_ws_def dict_set_new)

lemma scan_member_next:
  assumes "k \<notin> fst ` set acc"
  shows "scan_object (Suc (Suc n)) acc
           (tl (py_encode_basestring_ascii k @ '': '' @ py_encode_basestring_ascii v) @ '', ''
              @ CHR 0x22 # rest)
         = scan_object (Suc n) (acc @ [(k, JStr v)]) rest"
  using assms
  by (simp add: py_encode_basestring_ascii_def scanstring_body is_ws_def dict_set_new)

lemma dumps_members_Cons:
  "dumps_members (p # kvs)
   = (py_encode_basestring_ascii (fst p) @ '': '' @ json_dumps (snd p)) # dumps_members kvs"
  by (cases p) simp

lemma join_with_Cons:
  "join_with sep (x # xs) = (if xs = [] then x else x @ sep @ join_with sep xs)"
  by (cases xs) simp_all

lemma join_with_members_quote:
  assumes "kvs \<noteq> []"
  shows "join_with sep (dumps_members kvs) = CHR 0x22 # tl (join_with sep (dumps_members kvs))"
proof -
  from assms obtain p qs where "kvs = p # qs" by (cases kvs) auto
  then show ?thesis
    by (simp add: dumps_members_Cons join_with_Cons py_encode_basestring_ascii_def)
qed

lemma join_with_members_tl:
  assumes "kvs \<noteq> []"
  shows "tl (join_with '', '' (dumps_members ((k, JStr v) # kvs)))
   = tl (py_encode_basestring_ascii k @ '': '' @ py_encode_basestring_ascii v) @ '', ''
       @ CHR 0x22 # tl (join_with '', '' (dumps_members kvs))"
proof -
  from assms have ne: "dumps_members kvs \<noteq> []" by (cases kvs) (auto simp: dumps_members_Cons)
  have "join_with '', '' (dumps_members ((k, JStr v) # kvs))
        = (py_encode_basestring_ascii k @ '': '' @ py_encode_basestring_ascii v) @ '', ''
            @ join_with '', '' (dumps_members kvs)"
    using ne by (simp add: join_with_Cons)
  also have "join_with '', '' (dumps_members kvs)
             = CHR 0x22 # tl (join_with '', '' (dumps_members kvs))"
    by (rule join_with_members_quote[OF assms])
  finally show ?thesis by (simp add: py_encode_basestring_ascii_def)
qed

lemma scan_object_strs:
  "ps \<noteq> [] \<Longrightarrow> distinct (map fst acc @ map fst ps) \<Longrightarrow>
   scan_object (Suc (length ps + n)) acc
     (tl (join_with '', '' (dumps_members (map (\<lambda>(k, v). (k, JStr v)) ps))) @ CHR ''}'' # rest)
   = Inr (JObj (acc @ map (\<lambda>(k, v). (k, JStr v)) ps), rest)"
proof (induction ps arbitrary: acc rule: list_nonempty_induct)
  case (single p)
  obtain k v where p: "p = (k, v)" by (cases p)
  from single have "k \<notin> fst ` set acc" by (auto simp: p)
  from scan_member_last[OF this, of n v rest] show ?case by (simp add: p)
next
  case (cons p ps)
  obtain k v where p: "p = (k, v)" by (cases p)
  from cons.prems have knew: "k \<notin> fst ` set acc" by (auto simp: p)
  from cons.prems have d: "distinct (map fst (acc @ [(k, JStr v)]) @ map fst ps)"
    by (auto simp: p)
  let ?rest = "tl (join_with '', '' (dumps_members (map (\<lambda>(k, v). (k, JStr v)) ps))) @ CHR ''}'' # rest"
  from cons.hyps have mne: "map (\<lambda>(k, v). (k, JStr v)) ps \<noteq> []" by simp
  have t: "tl (join_with '', '' (dumps_members (map (\<lambda>(k, v). (k, JStr v)) (p # ps)))) @ CHR ''}'' # rest
           = tl (py_encode_basestring_ascii k @ '': '' @ py_encode_basestring_ascii v) @ '', ''
               @ CHR 0x22 # ?rest"
    using join_with_members_tl[OF mne, of k v] by (simp add: p)
  have "scan_object (Suc (length (p # ps) + n)) acc
          (tl (join_with '', '' (dumps_members (map (\<lambda>(k, v). (k, JStr v)) (p # ps)))) @ CHR ''}'' # rest)
        = scan_object (Suc (length ps + n)) (acc @ [(k, JStr v)]) ?rest"
    unfolding t using scan_member_next[OF knew, of "length ps + n" v ?rest] by simp
  also have "\<dots> = Inr (JObj ((acc @ [(k, JStr v)]) @ map (\<lambda>(k, v). (k, JStr v)) ps), rest)"
    using cons.IH[OF d] .
  finally show ?case by (simp add: p)
qed

lemma length_join_with_members: "length kvs \<le> length (join_with sep (dumps_members kvs))"
proof (induction kvs)
  case Nil
  then show ?case by simp
next
  case (Cons p kvs)
  then show ?case
    by (cases "kvs = []")
      (auto simp: dumps_members_Cons join_with_Cons py_encode_basestring_ascii_def
        dest: arg_cong[where f = length])
qed

lemma json_loads_dumps_strs:
  assumes ne: "ps \<noteq> []" and d: "distinct (map fst ps)"
  shows "json_loads (json_dumps (JObj (map (\<lambda>(k, v). (k, JStr v)) ps)))
         = Inr (JObj (map (\<lambda>(k, v). (k, JStr v)) ps))"
proof -
  let ?kvs = "map (\<lambda>(k, v). (k, JStr v)) ps"
  let ?body = "join_with '', '' (dumps_members ?kvs)"
  let ?txt = "json_dumps (JObj ?kvs)"
  from ne have mne: "?kvs \<noteq> []" by simp
  have tx: "?txt = CHR ''{'' # CHR 0x22 # tl ?body @ ''}''"
    using join_with_members_quote[OF mne, of "'', ''"] by simp
  have "length ?kvs \<le> length ?body" by (rule length_join_with_members)
  then have "Suc (length ps) \<le> 2 * length ?txt" by simp
  then obtain n where n: "2 * length ?txt = Suc (length ps + n)"
    by (metis add_Suc le_Suc_ex)
  define F where "F = 2 * length ?txt"
  have sk: "skip_ws ?txt = CHR ''{'' # CHR 0x22 # tl ?body @ ''}''"
    by (subst tx) (simp add: is_ws_def)
  have "scan_once (Suc F) (skip_ws ?txt) = scan_object F [] (tl ?body @ ''}'')"
    unfolding sk by (simp add: is_ws_def)
  also have "\<dots> = Inr (JObj ([] @ ?kvs), [])"
    unfolding F_def n using scan_object_strs[OF ne, of "[]" n "[]"] d by simp
  finally show ?thesis
    by (simp add: json_loads_def skip_ws_def F_def)
qed

lemma json_loads_dumps_env: "json_loads (json_dumps (env_config env)) = Inr (env_config env)"
  using json_loads_dumps_strs[of
      "[(''model_name'', env_or env ''MODEL_NAME'' default_model_name),
        (''subscription'', env_or env ''SUBSCRIPTION'' default_subscription),
        (''resource_group'', env_or env ''RESOURCE_GROUP'' default_resource_group),
        (''workspace'', env_or env ''ML_WORKSPACE'' default_ml_workspace),
        (''model_version'', env_or env ''MODEL_VERSION'' default_model_version)]"]
  by (simp add: env_config_def)

lemma open_read_exists: "open_read fs p = Inr txt \<Longrightarrow> path_exists fs p"
  by (auto simp: open_read_def path_exists_def split: sum.splits)

section \<open>The configuration file\<close>

text \<open>
  C9.  When the configuration file exists and its content is not JSON, \<open>read_config\<close>
  raises \<^verbatim>\<open>JSONDecodeError\<close>: it returns no record, does not look at the environment,
  and leaves the files and the list of calls as they were.
\<close>

theorem read_config_malformed_raises:
  assumes "open_read (files s) (config_path base_dir) = Inr txt"
    and "json_loads txt = Inl JSONDecodeError"
  shows "read_config env base_dir s = (Inl JSONDecodeError, s)"
  using assms open_read_exists[OF assms(1)]
  by (simp add: read_config_def config_path_def)

theorem read_config_malformed_raises_witness:
  "open_read (files (start (config_nodes ''{''))) (config_path CACHE) = Inr ''{''
   \<and> json_loads ''{'' = Inl JSONDecodeError
   \<and> read_config [''MODEL_NAME'' \<mapsto> ''foo''] CACHE (start (config_nodes ''{''))
       = (Inl JSONDecodeError, start (config_nodes ''{''))"
proof -
  have a: "open_read (files (start (config_nodes ''{''))) (config_path CACHE) = Inr ''{''"
    by code_simp
  have b: "json_loads ''{'' = Inl JSONDecodeError"
    by code_simp
  from read_config_malformed_raises[OF a b] a b show ?thesis by simp
qed

text \<open>
  C2, as the code has it.  When the configuration file exists and its content parses to a
  value other than \<^verbatim>\<open>null\<close>, \<open>read_config\<close> returns that value as parsed and changes
  nothing: the files and the list of calls are the same after the call.
\<close>

theorem read_config_existing_file:
  assumes "open_read (files s) (config_path base_dir) = Inr txt"
    and "json_loads txt = Inr v"
    and "v \<noteq> JNull"
  shows "read_config env base_dir s = (Inr v, s)"
  using assms open_read_exists[OF assms(1)]
  by (simp add: read_config_def config_path_def)

theorem read_config_existing_file_witness:
  "open_read (files (start (config_nodes ''{ \"model_name\": \"m\", \"model_version\": 3 }'')))
      (config_path CACHE) = Inr ''{ \"model_name\": \"m\", \"model_version\": 3 }''
   \<and> json_loads ''{ \"model_name\": \"m\", \"model_version\": 3 }''
       = Inr (JObj [(''model_name'', JStr ''m''), (''model_version'', JInt 3)])
   \<and> JObj [(''model_name'', JStr ''m''), (''model_version'', JInt 3)] \<noteq> JNull
   \<and> read_config [''MODEL_NAME'' \<mapsto> ''foo''] CACHE
         (start (config_nodes ''{ \"model_name\": \"m\", \"model_version\": 3 }''))
       = (Inr (JObj [(''model_name'', JStr ''m''), (''model_version'', JInt 3)]),
          start (config_nodes ''{ \"model_name\": \"m\", \"model_version\": 3 }''))"
proof -
  have a: "open_read (files (start (config_nodes ''{ \"model_name\": \"m\", \"model_version\": 3 }'')))
      (config_path CACHE) = Inr ''{ \"model_name\": \"m\", \"model_version\": 3 }''"
    by code_simp
  have b: "json_loads ''{ \"model_name\": \"m\", \"model_version\": 3 }''
       = Inr (JObj [(''model_name'', JStr ''m''), (''model_version'', JInt 3)])"
    by code_simp
  have c: "JObj [(''model_name'', JStr ''m''), (''model_version'', JInt 3)] \<noteq> JNull"
    by simp
  from read_config_existing_file[OF a b c] a b c show ?thesis by simp
qed

text \<open>
  C2, as the specification has it, fails on a configuration file that holds \<^verbatim>\<open>null\<close>:
  the parsed content is \<^verbatim>\<open>None\<close>, which \<open>read_config\<close> takes for a missing file.
  It returns the record of the environment and overwrites the file.
\<close>

theorem read_config_null_file_rewritten:
  "open_read (files (start (config_nodes ''null''))) (config_path CACHE) = Inr ''null''
   \<and> json_loads ''null'' = Inr JNull
   \<and> fst (read_config Map.empty CACHE (start (config_nodes ''null''))) = Inr (env_config Map.empty)
   \<and> open_read (files (snd (read_config Map.empty CACHE (start (config_nodes ''null''))))) (config_path CACHE)
       = Inr (json_dumps (env_config Map.empty))
   \<and> json_dumps (env_config Map.empty) \<noteq> ''null''
   \<and> write_calls (snd (read_config Map.empty CACHE (start (config_nodes ''null''))))
       = [OpenWrite (config_path CACHE)]"
  by code_simp

lemma read_config_fresh_facts:
  assumes ne: "\<not> path_exists (files s) (config_path b)"
    and rdy: "dir_ready (files s) b" and wf: "wf_fs (files s)"
  shows "fst (read_config env b s) = Inr (env_config env)"
    and "open_read (files (snd (read_config env b s))) (config_path b) = Inr (json_dumps (env_config env))"
    and "os_stat (files (snd (read_config env b s))) b = Inr Dir"
    and "calls (snd (read_config env b s))
         = calls s @ (if path_exists (files s) b then [] else [Mkdir b]) @ [OpenWrite (config_path b)]"
proof -
  from read_config_fresh[OF ne rdy wf, of env] obtain k where
    k: "dir_key (after_mkdir (files s) b) b k"
    and none: "nodes (after_mkdir (files s) b) (k @ [MODEL_LOADER_CONFIG_JSON]) = None"
    and rc: "read_config env b s =
              (Inr (env_config env),
               \<lparr>files = (after_mkdir (files s) b)\<lparr>nodes := (nodes (after_mkdir (files s) b))
                           (k @ [MODEL_LOADER_CONFIG_JSON] \<mapsto> File (json_dumps (env_config env)))\<rparr>,
                calls = calls s @ (if path_exists (files s) b then [] else [Mkdir b])
                          @ [OpenWrite (config_path b)]\<rparr>)"
    by blast
  from none have nd: "nodes (after_mkdir (files s) b) (k @ [MODEL_LOADER_CONFIG_JSON]) \<noteq> Some Dir"
    by simp
  note aw = after_write_child[OF k plain_config_name nd refl, of "json_dumps (env_config env)",
      folded config_path_join2]
  show "fst (read_config env b s) = Inr (env_config env)" by (simp add: rc)
  show "open_read (files (snd (read_config env b s))) (config_path b) = Inr (json_dumps (env_config env))"
    using aw(1) by (simp add: rc open_read_def)
  show "os_stat (files (snd (read_config env b s))) b = Inr Dir"
    using aw(2) by (auto simp: rc os_stat_dir_key)
  show "calls (snd (read_config env b s))
         = calls s @ (if path_exists (files s) b then [] else [Mkdir b]) @ [OpenWrite (config_path b)]"
    by (simp add: rc)
qed

lemma env_or_unset: "env k = None \<Longrightarrow> env_or env k d = d"
  by (simp add: env_or_def)

text \<open>
  C4.  No configuration file, none of the five variables set, and a base directory that
  is a directory or can be made.  \<open>read_config\<close> returns the record of the five
  default strings; afterwards the base directory is a directory and the configuration
  file in it holds that record as JSON (the text \<^verbatim>\<open>json.dump\<close> writes, which
  \<^verbatim>\<open>json.load\<close> reads back as the record).  The calls that write are the
  \<^verbatim>\<open>mkdir\<close> with parents, made only when the base directory was missing, and the
  opening of the configuration file.
\<close>

theorem read_config_defaults:
  assumes "\<not> path_exists (files s) (config_path base_dir)"
    and "env ''MODEL_NAME'' = None" and "env ''SUBSCRIPTION'' = None"
    and "env ''RESOURCE_GROUP'' = None" and "env ''ML_WORKSPACE'' = None"
    and "env ''MODEL_VERSION'' = None"
    and "dir_ready (files s) base_dir" and "wf_fs (files s)"
  shows "fst (read_config env base_dir s)
           = Inr (JObj [(''model_name'', JStr ''led-large-16384-arxiv''),
                        (''subscription'', JStr ''091ac194-317f-4880-9f66-a9c23f42cb60''),
                        (''resource_group'', JStr ''dev''),
                        (''workspace'', JStr ''ecb-dev''),
                        (''model_version'', JStr ''None'')])
         \<and> open_read (files (snd (read_config env base_dir s))) (config_path base_dir)
           = Inr (json_dumps (JObj [(''model_name'', JStr ''led-large-16384-arxiv''),
                        (''subscription'', JStr ''091ac194-317f-4880-9f66-a9c23f42cb60''),
                        (''resource_group'', JStr ''dev''),
                        (''workspace'', JStr ''ecb-dev''),
                        (''model_version'', JStr ''None'')]))
         \<and> json_loads (json_dumps (JObj [(''model_name'', JStr ''led-large-16384-arxiv''),
                        (''subscription'', JStr ''091ac194-317f-4880-9f66-a9c23f42cb60''),
                        (''resource_group'', JStr ''dev''),
                        (''workspace'', JStr ''ecb-dev''),
                        (''model_version'', JStr ''None'')]))
           = Inr (JObj [(''model_name'', JStr ''led-large-16384-arxiv''),
                        (''subscription'', JStr ''091ac194-317f-4880-9f66-a9c23f42cb60''),
                        (''resource_group'', JStr ''dev''),
                        (''workspace'', JStr ''ecb-dev''),
                        (''model_version'', JStr ''None'')])
         \<and> os_stat (files (snd (read_config env base_dir s))) base_dir = Inr Dir
         \<and> calls (snd (read_config env base_dir s))
           = calls s @ (if path_exists (files s) base_dir then [] else [Mkdir base_dir])
               @ [OpenWrite (config_path base_dir)]"
proof -
  have e: "env_config env = JObj [(''model_name'', JStr ''led-large-16384-arxiv''),
                        (''subscription'', JStr ''091ac194-317f-4880-9f66-a9c23f42cb60''),
                        (''resource_group'', JStr ''dev''),
                        (''workspace'', JStr ''ecb-dev''),
                        (''model_version'', JStr ''None'')]"
    using assms(2-6)
    by (simp add: env_config_def env_or_unset default_model_name_def default_subscription_def
        default_resource_group_def default_ml_workspace_def default_model_version_def)
  note f = read_config_fresh_facts[OF assms(1) assms(7) assms(8), of env]
  from f json_loads_dumps_env[of env] show ?thesis
    unfolding e by simp
qed


lemma wf_fresh: "wf_fs (files (start fresh_nodes))"
  by (auto simp: wf_fs_def start_def app_fs_def fresh_nodes_def split: if_splits)

lemma fresh_no_config: "\<not> path_exists (files (start fresh_nodes)) (config_path CACHE)"
  by code_simp

lemma fresh_ready: "dir_ready (files (start fresh_nodes)) CACHE"
  by code_simp

theorem read_config_defaults_witness:
  "\<not> path_exists (files (start fresh_nodes)) (config_path CACHE)
   \<and> dir_ready (files (start fresh_nodes)) CACHE \<and> wf_fs (files (start fresh_nodes))
   \<and> fst (read_config Map.empty CACHE (start fresh_nodes)) = Inr (JObj [(''model_name'', JStr ''led-large-16384-arxiv''),
                        (''subscription'', JStr ''091ac194-317f-4880-9f66-a9c23f42cb60''),
                        (''resource_group'', JStr ''dev''),
                        (''workspace'', JStr ''ecb-dev''),
                        (''model_version'', JStr ''None'')])
   \<and> open_read (files (snd (read_config Map.empty CACHE (start fresh_nodes)))) (config_path CACHE)
       = Inr (json_dumps (JObj [(''model_name'', JStr ''led-large-16384-arxiv''),
                        (''subscription'', JStr ''091ac194-317f-4880-9f66-a9c23f42cb60''),
                        (''resource_group'', JStr ''dev''),
                        (''workspace'', JStr ''ecb-dev''),
                        (''model_version'', JStr ''None'')]))
   \<and> os_stat (files (snd (read_config Map.empty CACHE (start fresh_nodes)))) CACHE = Inr Dir
   \<and> calls (snd (read_config Map.empty CACHE (start fresh_nodes)))
       = [Mkdir CACHE, OpenWrite (config_path CACHE)]"
proof -
  have t: "fst (read_config Map.empty CACHE (start fresh_nodes)) = Inr (JObj [(''model_name'', JStr ''led-large-16384-arxiv''),
                        (''subscription'', JStr ''091ac194-317f-4880-9f66-a9c23f42cb60''),
                        (''resource_group'', JStr ''dev''),
                        (''workspace'', JStr ''ecb-dev''),
                        (''model_version'', JStr ''None'')])
      \<and> open_read (files (snd (read_config Map.empty CACHE (start fresh_nodes)))) (config_path CACHE)
          = Inr (json_dumps (JObj [(''model_name'', JStr ''led-large-16384-arxiv''),
                        (''subscription'', JStr ''091ac194-317f-4880-9f66-a9c23f42cb60''),
                        (''resource_group'', JStr ''dev''),
                        (''workspace'', JStr ''ecb-dev''),
                        (''model_version'', JStr ''None'')]))
      \<and> json_loads (json_dumps (JObj [(''model_name'', JStr ''led-large-16384-arxiv''),
                        (''subscription'', JStr ''091ac194-317f-4880-9f66-a9c23f42cb60''),
                        (''resource_group'', JStr ''dev''),
                        (''workspace'', JStr ''ecb-dev''),
                        (''model_version'', JStr ''None'')])) = Inr (JObj [(''model_name'', JStr ''led-large-16384-arxiv''),
                        (''subscription'', JStr ''091ac194-317f-4880-9f66-a9c23f42cb60''),
                        (''resource_group'', JStr ''dev''),
                        (''workspace'', JStr ''ecb-dev''),
                        (''model_version'', JStr ''None'')])
      \<and> os_stat (files (snd (read_config Map.empty CACHE (start fresh_nodes)))) CACHE = Inr Dir
      \<and> calls (snd (read_config Map.empty CACHE (start fresh_nodes)))
          = calls (start fresh_nodes)
            @ (if path_exists (files (start fresh_nodes)) CACHE then [] else [Mkdir CACHE])
            @ [OpenWrite (config_path CACHE)]"
    by (rule read_config_defaults[OF fresh_no_config _ _ _ _ _ fresh_ready wf_fresh]) simp_all
  have q: "\<not> path_exists (files (start fresh_nodes)) CACHE" "calls (start fresh_nodes) = []"
    by code_simp+
  from t q have c: "calls (snd (read_config Map.empty CACHE (start fresh_nodes)))
       = [Mkdir CACHE, OpenWrite (config_path CACHE)]"
    by simp
  from t c fresh_no_config fresh_ready wf_fresh show ?thesis by blast
qed

text \<open>
  C5.  No configuration file, and a base directory that is a directory or can be made.
  \<open>read_config\<close> returns the record whose five fields come from \<^verbatim>\<open>MODEL_NAME\<close>,
  \<^verbatim>\<open>SUBSCRIPTION\<close>, \<^verbatim>\<open>RESOURCE_GROUP\<close>, \<^verbatim>\<open>ML_WORKSPACE\<close> and \<^verbatim>\<open>MODEL_VERSION\<close>:
  the value of the variable when it is set and not empty, the default string when it
  is unset or empty.
\<close>

theorem read_config_from_environment:
  assumes "\<not> path_exists (files s) (config_path base_dir)"
    and "dir_ready (files s) base_dir" and "wf_fs (files s)"
  shows "fst (read_config env base_dir s)
         = Inr (JObj
            [(''model_name'', JStr (case env ''MODEL_NAME'' of
                None \<Rightarrow> ''led-large-16384-arxiv''
              | Some v \<Rightarrow> if v = [] then ''led-large-16384-arxiv'' else v)),
             (''subscription'', JStr (case env ''SUBSCRIPTION'' of
                None \<Rightarrow> ''091ac194-317f-4880-9f66-a9c23f42cb60''
              | Some v \<Rightarrow> if v = [] then ''091ac194-317f-4880-9f66-a9c23f42cb60'' else v)),
             (''resource_group'', JStr (case env ''RESOURCE_GROUP'' of
                None \<Rightarrow> ''dev''
              | Some v \<Rightarrow> if v = [] then ''dev'' else v)),
             (''workspace'', JStr (case env ''ML_WORKSPACE'' of
                None \<Rightarrow> ''ecb-dev''
              | Some v \<Rightarrow> if v = [] then ''ecb-dev'' else v)),
             (''model_version'', JStr (case env ''MODEL_VERSION'' of
                None \<Rightarrow> ''None''
              | Some v \<Rightarrow> if v = [] then ''None'' else v))])"
  using read_config_fresh_facts(1)[OF assms, of env]
  by (simp add: env_config_def env_or_def default_model_name_def default_subscription_def
      default_resource_group_def default_ml_workspace_def default_model_version_def)

theorem read_config_from_environment_witness:
  "\<not> path_exists (files (start fresh_nodes)) (config_path CACHE)
   \<and> dir_ready (files (start fresh_nodes)) CACHE \<and> wf_fs (files (start fresh_nodes))
   \<and> fst (read_config [''MODEL_NAME'' \<mapsto> ''foo'', ''RESOURCE_GROUP'' \<mapsto> []] CACHE (start fresh_nodes))
       = Inr (JObj [(''model_name'', JStr ''foo''),
                    (''subscription'', JStr ''091ac194-317f-4880-9f66-a9c23f42cb60''),
                    (''resource_group'', JStr ''dev''),
                    (''workspace'', JStr ''ecb-dev''),
                    (''model_version'', JStr ''None'')])"
  using read_config_from_environment[OF fresh_no_config fresh_ready wf_fresh,
      of "[''MODEL_NAME'' \<mapsto> ''foo'', ''RESOURCE_GROUP'' \<mapsto> []]"]
    fresh_no_config fresh_ready wf_fresh
  by simp

lemma env_config_not_null: "env_config env \<noteq> JNull"
  by (simp add: env_config_def)

lemma read_config_parsed:
  assumes "open_read (files s) (config_path b) = Inr txt"
    and "json_loads txt = Inr v" and "v \<noteq> JNull"
  shows "read_config env b s = (Inr v, s)"
  using assms open_read_exists[OF assms(1)]
  by (simp add: read_config_def config_path_def)

text \<open>
  C6.  On a base directory without a configuration file (one that is a directory or can
  be made), a first call of \<open>read_config\<close> returns the record of the environment, and a
  second call, in the state the first one left, returns the same record and changes
  nothing more.  The second call does not depend on its environment.
\<close>

theorem read_config_idempotent:
  assumes "\<not> path_exists (files s) (config_path base_dir)"
    and "dir_ready (files s) base_dir" and "wf_fs (files s)"
  shows "fst (read_config env base_dir s) = Inr (env_config env)
         \<and> read_config env' base_dir (snd (read_config env base_dir s))
           = (fst (read_config env base_dir s), snd (read_config env base_dir s))"
proof -
  note f = read_config_fresh_facts[OF assms, of env]
  from read_config_parsed[OF f(2) json_loads_dumps_env env_config_not_null, of env'] f(1)
  show ?thesis by simp
qed

theorem read_config_idempotent_witness:
  "\<not> path_exists (files (start fresh_nodes)) (config_path CACHE)
   \<and> dir_ready (files (start fresh_nodes)) CACHE \<and> wf_fs (files (start fresh_nodes))
   \<and> fst (read_config [''MODEL_NAME'' \<mapsto> ''foo''] CACHE (start fresh_nodes))
       = Inr (env_config [''MODEL_NAME'' \<mapsto> ''foo''])
   \<and> read_config [''MODEL_NAME'' \<mapsto> ''foo''] CACHE
        (snd (read_config [''MODEL_NAME'' \<mapsto> ''foo''] CACHE (start fresh_nodes)))
       = (fst (read_config [''MODEL_NAME'' \<mapsto> ''foo''] CACHE (start fresh_nodes)),
          snd (read_config [''MODEL_NAME'' \<mapsto> ''foo''] CACHE (start fresh_nodes)))"
  using read_config_idempotent[OF fresh_no_config fresh_ready wf_fresh,
      of "[''MODEL_NAME'' \<mapsto> ''foo'']" "[''MODEL_NAME'' \<mapsto> ''foo'']"]
    fresh_no_config fresh_ready wf_fresh
  by blast

lemma read_config_built:
  assumes "\<not> path_exists (files s) (config_path b)"
    and "fst (read_config env b s) = Inr cfg"
  shows "cfg = env_config env"
  using assms
  by (auto simp: read_config_def config_path_def Let_def
      split: sum.splits prod.splits option.splits if_splits)

lemma env_or_filled: "d \<noteq> [] \<Longrightarrow> env_or env k d \<noteq> []"
  by (simp add: env_or_def split: option.splits)

lemma complete_env_config: "complete_record (env_config env)"
  by (simp add: complete_record_def env_config_def field_names_def filled_def env_or_filled
      default_model_name_def default_subscription_def default_resource_group_def
      default_ml_workspace_def default_model_version_def)

text \<open>
  C8, as the code has it.  A record that \<open>read_config\<close> returns when there is no
  configuration file, built from the environment and the defaults, has the five fields,
  each a string that is not empty.
\<close>

theorem read_config_built_record_complete:
  assumes "\<not> path_exists (files s) (config_path base_dir)"
    and "fst (read_config env base_dir s) = Inr cfg"
  shows "complete_record cfg"
  using read_config_built[OF assms] complete_env_config by simp

theorem read_config_built_record_complete_witness:
  "\<not> path_exists (files (start fresh_nodes)) (config_path CACHE)
   \<and> fst (read_config [''MODEL_VERSION'' \<mapsto> []] CACHE (start fresh_nodes)) = Inr (JObj [(''model_name'', JStr ''led-large-16384-arxiv''),
                        (''subscription'', JStr ''091ac194-317f-4880-9f66-a9c23f42cb60''),
                        (''resource_group'', JStr ''dev''),
                        (''workspace'', JStr ''ecb-dev''),
                        (''model_version'', JStr ''None'')])
   \<and> complete_record (JObj [(''model_name'', JStr ''led-large-16384-arxiv''),
                        (''subscription'', JStr ''091ac194-317f-4880-9f66-a9c23f42cb60''),
                        (''resource_group'', JStr ''dev''),
                        (''workspace'', JStr ''ecb-dev''),
                        (''model_version'', JStr ''None'')])"
proof -
  have a: "fst (read_config [''MODEL_VERSION'' \<mapsto> []] CACHE (start fresh_nodes)) = Inr (JObj [(''model_name'', JStr ''led-large-16384-arxiv''),
                        (''subscription'', JStr ''091ac194-317f-4880-9f66-a9c23f42cb60''),
                        (''resource_group'', JStr ''dev''),
                        (''workspace'', JStr ''ecb-dev''),
                        (''model_version'', JStr ''None'')])"
    by code_simp
  from read_config_built_record_complete[OF fresh_no_config a] fresh_no_config a
  show ?thesis by simp
qed

text \<open>
  C8, as the specification has it, fails on a record that comes from the configuration
  file: the file is returned as parsed.  Here it has an empty model name and no other
  field.
\<close>

theorem read_config_file_record_incomplete:
  "fst (read_config Map.empty CACHE (start (config_nodes ''{ \"model_name\": \"\" }'')))
     = Inr (JObj [(''model_name'', JStr [])])
   \<and> \<not> complete_record (JObj [(''model_name'', JStr [])])"
  by code_simp

text \<open>
  C10.  \<open>load_model_names\<close> starts with \<open>read_config\<close>.  When there is no
  configuration file in the cache directory (and that directory is one or can be made),
  the run leaves the cache directory and, in it, the configuration file with the record
  of the environment, whatever the workspace answers; the writing calls come before
  the workspace lookup and the listing.
\<close>

theorem load_model_names_writes_config:
  assumes "\<not> path_exists (files s) (config_path CACHE)"
    and "dir_ready (files s) CACHE" and "wf_fs (files s)"
  shows "os_stat (files (snd (load_model_names W env s))) CACHE = Inr Dir
         \<and> open_read (files (snd (load_model_names W env s))) (config_path CACHE)
             = Inr (json_dumps (env_config env))
         \<and> calls (snd (load_model_names W env s))
             = calls s @ (if path_exists (files s) CACHE then [] else [Mkdir CACHE])
               @ OpenWrite (config_path CACHE)
               # WorkspaceGet (JStr (env_or env ''SUBSCRIPTION'' default_subscription))
                   (JStr (env_or env ''RESOURCE_GROUP'' default_resource_group))
                   (JStr (env_or env ''ML_WORKSPACE'' default_ml_workspace))
                   (build_service_principal env)
               # (case Workspace_get W (JStr (env_or env ''SUBSCRIPTION'' default_subscription))
                        (JStr (env_or env ''RESOURCE_GROUP'' default_resource_group))
                        (JStr (env_or env ''ML_WORKSPACE'' default_ml_workspace))
                        (build_service_principal env) of
                    Inl e \<Rightarrow> []
                  | Inr ws \<Rightarrow> [ModelList ws])"
proof -
  note f = read_config_fresh_facts[OF assms, of env]
  obtain s1 where rc: "read_config env CACHE s = (Inr (env_config env), s1)"
    using f(1) by (cases "read_config env CACHE s") auto
  have g: "dict_get [(''model_name'', JStr (env_or env ''MODEL_NAME'' default_model_name)),
           (''subscription'', JStr (env_or env ''SUBSCRIPTION'' default_subscription)),
           (''resource_group'', JStr (env_or env ''RESOURCE_GROUP'' default_resource_group)),
           (''workspace'', JStr (env_or env ''ML_WORKSPACE'' default_ml_workspace)),
           (''model_version'', JStr (env_or env ''MODEL_VERSION'' default_model_version))] k
        = (if k = ''model_name'' then JStr (env_or env ''MODEL_NAME'' default_model_name)
           else if k = ''subscription'' then JStr (env_or env ''SUBSCRIPTION'' default_subscription)
           else if k = ''resource_group'' then JStr (env_or env ''RESOURCE_GROUP'' default_resource_group)
           else if k = ''workspace'' then JStr (env_or env ''ML_WORKSPACE'' default_ml_workspace)
           else if k = ''model_version'' then JStr (env_or env ''MODEL_VERSION'' default_model_version)
           else JNull)" for k
    by (simp add: dict_get_def)
  have fl: "files (snd (load_model_names W env s)) = files s1"
    by (simp add: load_model_names_def rc env_config_def record_call_def Let_def split: sum.splits)
  have cl: "calls (snd (load_model_names W env s))
        = calls s1
          @ WorkspaceGet (JStr (env_or env ''SUBSCRIPTION'' default_subscription))
                   (JStr (env_or env ''RESOURCE_GROUP'' default_resource_group))
                   (JStr (env_or env ''ML_WORKSPACE'' default_ml_workspace))
                   (build_service_principal env)
          # (case Workspace_get W (JStr (env_or env ''SUBSCRIPTION'' default_subscription))
                        (JStr (env_or env ''RESOURCE_GROUP'' default_resource_group))
                        (JStr (env_or env ''ML_WORKSPACE'' default_ml_workspace))
                        (build_service_principal env) of
                    Inl e \<Rightarrow> []
                  | Inr ws \<Rightarrow> [ModelList ws])"
    by (simp add: load_model_names_def rc env_config_def record_call_def Let_def g split: sum.splits)
  from f(2,3,4) show ?thesis
    unfolding fl cl by (simp add: rc)
qed

theorem load_model_names_writes_config_witness:
  "\<not> path_exists (files (start fresh_nodes)) (config_path CACHE)
   \<and> dir_ready (files (start fresh_nodes)) CACHE \<and> wf_fs (files (start fresh_nodes))
   \<and> fst (load_model_names toy_world Map.empty (start fresh_nodes)) = Inr [''m::7'', ''led::12'']
   \<and> os_stat (files (snd (load_model_names toy_world Map.empty (start fresh_nodes)))) CACHE = Inr Dir
   \<and> open_read (files (snd (load_model_names toy_world Map.empty (start fresh_nodes)))) (config_path CACHE)
       = Inr (json_dumps (env_config Map.empty))
   \<and> calls (snd (load_model_names toy_world Map.empty (start fresh_nodes)))
       = [Mkdir ''cache'', OpenWrite ''cache/model_loader_config.json'',
          WorkspaceGet (JStr ''091ac194-317f-4880-9f66-a9c23f42cb60'') (JStr ''dev'') (JStr ''ecb-dev'')
            (ServicePrincipalAuthentication None None None),
          ModelList (Workspace ''ecb-dev'')]"
proof -
  note t = load_model_names_writes_config[OF fresh_no_config fresh_ready wf_fresh, of toy_world Map.empty]
  have a: "fst (load_model_names toy_world Map.empty (start fresh_nodes)) = Inr [''m::7'', ''led::12'']"
    by code_simp
  have c: "calls (snd (load_model_names toy_world Map.empty (start fresh_nodes)))
       = [Mkdir ''cache'', OpenWrite ''cache/model_loader_config.json'',
          WorkspaceGet (JStr ''091ac194-317f-4880-9f66-a9c23f42cb60'') (JStr ''dev'') (JStr ''ecb-dev'')
            (ServicePrincipalAuthentication None None None),
          ModelList (Workspace ''ecb-dev'')]"
    by code_simp
  from t a c fresh_no_config fresh_ready wf_fresh show ?thesis by blast
qed

section \<open>Fetching the model\<close>


lemma read_config_remote_calls: "remote_calls (snd (read_config env b s)) = remote_calls s"
  by (auto simp: read_config_def mkdir_parents_def record_call_def remote_calls_def Let_def
      split: sum.splits prod.splits option.splits if_splits)

lemma resolve_cfg_remote_calls:
  "resolve_cfg env cfg0 s = (r, s1) \<Longrightarrow> remote_calls s1 = remote_calls s"
  using read_config_remote_calls[of env CACHE s]
  by (auto simp: resolve_cfg_def split: if_splits)

lemma from_pretrained_remote_calls: "remote_calls (snd (from_pretrained W p s)) = remote_calls s"
  by (auto simp: from_pretrained_def record_call_def remote_calls_def Let_def split: sum.splits)

text \<open>
  C3.  When the path of the downloaded model, computed from the configuration that
  \<open>fetch_model\<close> works with (the one supplied, or the one \<open>read_config\<close> returns),
  exists, \<open>fetch_model\<close> goes straight to the artifact loader: the remote calls of the
  run (workspace lookup, model lookup, download, listing) are those made before it.
\<close>

theorem fetch_model_cache_hit_no_remote:
  assumes "resolve_cfg env cfg0 s = (Inr (JObj d), s1)"
    and "artifact_paths d = Inr (target_dir, p)"
    and "path_exists (files s1) p"
  shows "fetch_model W env cfg0 s = from_pretrained W p s1
         \<and> remote_calls (snd (fetch_model W env cfg0 s)) = remote_calls s"
proof -
  from assms have f: "fetch_model W env cfg0 s = from_pretrained W p s1"
    by (simp add: fetch_model_def)
  with from_pretrained_remote_calls[of W p s1] resolve_cfg_remote_calls[OF assms(1)]
  show ?thesis by simp
qed

theorem fetch_model_cache_hit_no_remote_witness:
  "resolve_cfg Map.empty (JObj m3_cfg) (start cached_nodes) = (Inr (JObj m3_cfg), start cached_nodes)
   \<and> artifact_paths m3_cfg = Inr (''./cache/m/3'', ''./cache/m/3/m'')
   \<and> path_exists (files (start cached_nodes)) ''./cache/m/3/m''
   \<and> fst (fetch_model toy_world Map.empty (JObj m3_cfg) (start cached_nodes))
       = Inr (''model:./cache/m/3/m@cpu'', ''tokenizer:./cache/m/3/m'')
   \<and> calls (snd (fetch_model toy_world Map.empty (JObj m3_cfg) (start cached_nodes)))
       = [LoadModel ''./cache/m/3/m'', LoadTokenizer ''./cache/m/3/m'']
   \<and> remote_calls (snd (fetch_model toy_world Map.empty (JObj m3_cfg) (start cached_nodes))) = []"
proof -
  have a: "resolve_cfg Map.empty (JObj m3_cfg) (start cached_nodes) = (Inr (JObj m3_cfg), start cached_nodes)"
    by (simp add: resolve_cfg_def)
  have b: "artifact_paths m3_cfg = Inr (''./cache/m/3'', ''./cache/m/3/m'')"
    by code_simp
  have c: "path_exists (files (start cached_nodes)) ''./cache/m/3/m''"
    by code_simp
  have d: "fst (from_pretrained toy_world ''./cache/m/3/m'' (start cached_nodes))
           = Inr (''model:./cache/m/3/m@cpu'', ''tokenizer:./cache/m/3/m'')"
    by code_simp
  have e: "calls (snd (from_pretrained toy_world ''./cache/m/3/m'' (start cached_nodes)))
           = [LoadModel ''./cache/m/3/m'', LoadTokenizer ''./cache/m/3/m'']"
    by code_simp
  have f: "remote_calls (start cached_nodes) = []"
    by (simp add: remote_calls_def start_def)
  from fetch_model_cache_hit_no_remote[OF a b c, of toy_world] a b c d e f show ?thesis
    by (simp add: remote_calls_def)
qed

text \<open>
  C1.  A configuration that asks for version \<^verbatim>\<open>3\<close> of the model \<^verbatim>\<open>m\<close>, on a fresh
  filesystem, with collaborators that succeed.  \<open>fetch_model\<close> makes one download call,
  into the directory of version 3, but the model it downloads was looked up with the
  version \<^verbatim>\<open>None\<close>: the configured version never reaches the workspace.
\<close>

theorem fetch_model_download_without_version:
  "dict_get m3_cfg ''model_version'' = JStr ''3''
   \<and> \<not> path_exists (files (start fresh_nodes)) ''./cache/m/3/m''
   \<and> fst (fetch_model toy_world Map.empty (JObj m3_cfg) (start fresh_nodes))
       = Inr (''model:./cache/m/3/m@cpu'', ''tokenizer:./cache/m/3/m'')
   \<and> calls (snd (fetch_model toy_world Map.empty (JObj m3_cfg) (start fresh_nodes)))
       = [WorkspaceGet (JStr ''s'') (JStr ''r'') (JStr ''w'') (ServicePrincipalAuthentication None None None),
          ModelInit (Workspace ''w'') (JStr ''m'') JNull,
          ModelDownload (Model ''m'' 7) ''./cache/m/3'' True,
          LoadModel ''./cache/m/3/m'',
          LoadTokenizer ''./cache/m/3/m'']"
  by code_simp

lemma fetch_remote_calls:
  "calls (snd (fetch_remote W a d target_dir s))
   = calls s
     @ WorkspaceGet (dict_get d ''subscription'') (dict_get d ''resource_group'')
         (dict_get d ''workspace'') a
     # (case Workspace_get W (dict_get d ''subscription'') (dict_get d ''resource_group'')
               (dict_get d ''workspace'') a of
          Inl e \<Rightarrow> []
        | Inr ws \<Rightarrow>
            ModelInit ws (dict_get d ''model_name'') JNull
            # (case Model_init W ws (dict_get d ''model_name'') JNull of
                 Inl e \<Rightarrow> []
               | Inr m \<Rightarrow> [ModelDownload m target_dir True]))"
  by (auto simp: fetch_remote_def download_model_from_workspace_def record_call_def Let_def
      split: sum.splits prod.splits)

section \<open>The path of the artifact\<close>

lemma path_parts_Nil: "path_parts [] = []"
  by (simp add: path_parts_def)

lemma path_parts_append_slash: "path_parts (a @ CHR ''/'' # b) = path_parts a @ path_parts b"
  by (simp add: path_parts_def split_slash_append)

lemma path_parts_join2:
  assumes "\<not> is_absolute b"
  shows "path_parts (join2 p b) = path_parts p @ path_parts b"
proof (cases "p = []")
  case True
  with assms show ?thesis by (simp add: join2_def is_absolute_def path_parts_Nil)
next
  case False
  show ?thesis
  proof (cases "last p = CHR ''/''")
    case True
    with False obtain p' where p': "p = p' @ [CHR ''/'']"
      by (metis append_butlast_last_id)
    have "join2 p b = p' @ CHR ''/'' # b"
      using assms True False p' by (auto simp: join2_def is_absolute_def)
    moreover have "path_parts p = path_parts p'"
      using path_parts_append_slash[of p' "[]"] p' by (simp add: path_parts_Nil)
    ultimately show ?thesis by (simp add: path_parts_append_slash)
  next
    case F2: False
    have "join2 p b = p @ CHR ''/'' # b"
      using assms F2 False by (auto simp: join2_def is_absolute_def)
    then show ?thesis by (simp add: path_parts_append_slash)
  qed
qed

lemma is_absolute_join2:
  assumes "p \<noteq> []" and "\<not> is_absolute b"
  shows "is_absolute (join2 p b) = is_absolute p"
  using assms by (cases p) (auto simp: join2_def is_absolute_def)

lemma join2_nonempty: "p \<noteq> [] \<Longrightarrow> join2 p b \<noteq> []"
  by (auto simp: join2_def)

lemma artifact_paths_strs:
  assumes "map_of d ''model_name'' = Some (JStr name)"
    and "dict_get d ''model_version'' = JStr v \<or> dict_get d ''model_version'' = JNull \<and> v = ''None''"
  shows "artifact_paths d
         = Inr (path_join ''.'' [CACHE, name, v], path_join ''.'' [CACHE, name, v, name])"
  using assms
  by (auto simp: artifact_paths_def py_path_join_def dict_get_def path_join_def Let_def)

text \<open>
  C7, as the code has it.  The two paths of \<open>fetch_model\<close> depend on the configuration
  only through the model name and the model version: they are
  \<^verbatim>\<open>os.path.join('.', 'cache', name, version)\<close> and that path joined with the name
  once more, where a missing version counts as \<^verbatim>\<open>'None'\<close>.  When neither the name nor
  the version starts with a slash, the path of the downloaded model is relative and
  has the components of \<^verbatim>\<open>cache/<name>/<version>/<name>\<close>.
\<close>

theorem artifact_path_layout:
  assumes "map_of d ''model_name'' = Some (JStr name)"
    and "dict_get d ''model_version'' = JStr v \<or> dict_get d ''model_version'' = JNull \<and> v = ''None''"
    and "map_of d' ''model_name'' = map_of d ''model_name''"
    and "dict_get d' ''model_version'' = dict_get d ''model_version''"
    and "\<not> is_absolute name" and "\<not> is_absolute v"
  shows "artifact_paths d
           = Inr (path_join ''.'' [CACHE, name, v], path_join ''.'' [CACHE, name, v, name])
         \<and> artifact_paths d' = artifact_paths d
         \<and> \<not> is_absolute (path_join ''.'' [CACHE, name, v, name])
         \<and> path_parts (path_join ''.'' [CACHE, name, v, name])
             = path_parts (''cache/'' @ name @ ''/'' @ v @ ''/'' @ name)"
proof -
  have a: "artifact_paths d
           = Inr (path_join ''.'' [CACHE, name, v], path_join ''.'' [CACHE, name, v, name])"
    by (rule artifact_paths_strs[OF assms(1,2)])
  have b: "artifact_paths d' = artifact_paths d"
    using artifact_paths_strs[of d' name v] assms(1-4) a by simp
  have j: "path_join ''.'' [CACHE, name, v, name] = join2 (join2 (join2 ''./cache'' name) v) name"
    by (simp add: path_join_def CACHE_def join2_def)
  have c: "\<not> is_absolute (path_join ''.'' [CACHE, name, v, name])"
    unfolding j using assms(5,6)
    by (simp add: is_absolute_join2 join2_nonempty) (simp add: is_absolute_def)
  have "path_parts (path_join ''.'' [CACHE, name, v, name])
        = path_parts ''./cache'' @ path_parts name @ path_parts v @ path_parts name"
    unfolding j using assms(5,6) by (simp add: path_parts_join2)
  also have "path_parts ''./cache'' = [''cache'']"
    by (simp add: path_parts_def)
  also have "[''cache''] @ path_parts name @ path_parts v @ path_parts name
             = path_parts (''cache/'' @ name @ ''/'' @ v @ ''/'' @ name)"
    using path_parts_append_slash[of "''cache''" "name @ ''/'' @ v @ ''/'' @ name"]
      path_parts_append_slash[of name "v @ ''/'' @ name"]
      path_parts_append_slash[of v name]
    by (simp add: path_parts_def)
  finally show ?thesis using a b c by blast
qed

theorem artifact_path_layout_witness:
  "map_of m3_cfg ''model_name'' = Some (JStr ''m'')
   \<and> dict_get m3_cfg ''model_version'' = JStr ''3''
   \<and> \<not> is_absolute ''m'' \<and> \<not> is_absolute ''3''
   \<and> artifact_paths m3_cfg = Inr (''./cache/m/3'', ''./cache/m/3/m'')
   \<and> artifact_paths [(''model_version'', JStr ''3''), (''model_name'', JStr ''m'')]
       = artifact_paths m3_cfg
   \<and> path_parts ''./cache/m/3/m'' = path_parts ''cache/m/3/m''"
proof -
  have a: "map_of m3_cfg ''model_name'' = Some (JStr ''m'')"
    and b: "dict_get m3_cfg ''model_version'' = JStr ''3''"
    and c: "\<not> is_absolute ''m''" "\<not> is_absolute ''3''"
    by code_simp+
  have e: "map_of [(''model_version'', JStr ''3''), (''model_name'', JStr ''m'')] ''model_name''
           = map_of m3_cfg ''model_name''"
    and f: "dict_get [(''model_version'', JStr ''3''), (''model_name'', JStr ''m'')] ''model_version''
           = dict_get m3_cfg ''model_version''"
    by code_simp+
  have p: "path_join ''.'' [CACHE, ''m'', ''3''] = ''./cache/m/3''"
    "path_join ''.'' [CACHE, ''m'', ''3'', ''m''] = ''./cache/m/3/m''"
    by code_simp+
  from artifact_path_layout[OF a disjI1[OF b] e f c] a b c show ?thesis
    unfolding p by simp
qed

text \<open>
  C7, as the specification has it, fails for a model name that starts with a slash:
  \<^verbatim>\<open>os.path.join\<close> drops what precedes such a component, so the path is the name
  itself, outside the cache directory.
\<close>

theorem artifact_path_absolute_name:
  "artifact_paths [(''model_name'', JStr ''/m''), (''model_version'', JStr ''3'')]
     = Inr (''/m/3'', ''/m'')
   \<and> ''/m'' \<noteq> ''cache/'' @ ''/m'' @ ''/'' @ ''3'' @ ''/'' @ ''/m''
   \<and> is_absolute ''/m''
   \<and> path_parts ''/m'' = [''m'']
   \<and> path_parts (''cache/'' @ ''/m'' @ ''/'' @ ''3'' @ ''/'' @ ''/m'') = [''cache'', ''m'', ''3'', ''m'']"
  by code_simp

end
